theory Spec2Isabelle
  imports Complex_Main "HOL-Library.Multiset"
begin

section \<open>JavaScript values\<close>

text \<open>
  The expression \<open>x || d\<close> yields \<open>d\<close> when \<open>x\<close> is falsy. A property that is
  missing (\<open>undefined\<close>) or \<open>null\<close> is \<open>None\<close>; the empty string and the number
  \<open>0\<close> are falsy as well.
\<close>

definition truthy :: "string option \<Rightarrow> bool" where
  "truthy x = (case x of None \<Rightarrow> False | Some v \<Rightarrow> v \<noteq> [])"

definition or_string :: "string option \<Rightarrow> string \<Rightarrow> string" where
  "or_string x d = (case x of None \<Rightarrow> d | Some v \<Rightarrow> if v = [] then d else v)"

subsection \<open>Numbers\<close>

text \<open>
  A JavaScript number is an IEEE 754 double: a rational of the form \<open>m * 2 ^ e\<close>
  with \<open>\<bar>m\<bar> < 2 ^ 53\<close> and \<open>- 1074 \<le> e \<le> 971\<close>, or an infinity. The numbers of
  the component come from a JSON response and from \<open>* 60\<close> and \<open>- 1\<close>, which
  produce neither \<open>NaN\<close> nor \<open>-0\<close> from such a number that is not falsy.
\<close>

datatype js_number = Finite rat | PosInfinity | NegInfinity

definition pow2 :: "int \<Rightarrow> rat" where
  "pow2 e = (if 0 \<le> e then 2 ^ nat e else 1 / 2 ^ nat (- e))"

text \<open>The number of binary digits of a positive integer.\<close>

function bit_length :: "int \<Rightarrow> int" where
  "bit_length n = (if 0 < n then 1 + bit_length (n div 2) else 0)"
  by pat_completeness auto
termination
  by (relation "measure nat") auto

text \<open>The exponent \<open>e\<close> with \<open>2 ^ e \<le> \<bar>x\<bar> < 2 ^ (e + 1)\<close>, for \<open>x \<noteq> 0\<close>.\<close>

definition binade :: "rat \<Rightarrow> int" where
  "binade x =
     (let (p, q) = quotient_of \<bar>x\<bar>;
          e0 = bit_length p - bit_length q
      in if pow2 e0 \<le> \<bar>x\<bar> then e0 else e0 - 1)"

definition round_half_even :: "rat \<Rightarrow> int" where
  "round_half_even q =
     (let f = \<lfloor>q\<rfloor>; d = q - of_int f
      in if d < 1 / 2 then f else if 1 / 2 < d then f + 1 else if even f then f else f + 1)"

definition overflow_threshold :: rat where
  "overflow_threshold = 2 ^ 1024"

text \<open>
  The result of an arithmetic operation is its exact result rounded to the nearest
  double, ties to the even significand: the spacing of the doubles around \<open>x\<close> is
  \<open>2 ^ (binade x - 52)\<close>, and never less than \<open>2 ^ - 1074\<close>; a result of magnitude
  \<open>2 ^ 1024\<close> is an infinity.
\<close>

definition fl :: "rat \<Rightarrow> js_number" where
  "fl x =
     (if x = 0 then Finite 0
      else let u = pow2 (max (binade x - 52) (- 1074));
               r = of_int (round_half_even (x / u)) * u
           in if overflow_threshold \<le> \<bar>r\<bar> then (if 0 < x then PosInfinity else NegInfinity)
              else Finite r)"

text \<open>\<open>x * 60\<close>, \<open>x - 1\<close>, \<open>x > 0\<close> and \<open>x === 0\<close>.\<close>

definition js_times60 :: "js_number \<Rightarrow> js_number" where
  "js_times60 x = (case x of Finite r \<Rightarrow> fl (r * 60) | PosInfinity \<Rightarrow> PosInfinity
                   | NegInfinity \<Rightarrow> NegInfinity)"

definition js_minus1 :: "js_number \<Rightarrow> js_number" where
  "js_minus1 x = (case x of Finite r \<Rightarrow> fl (r - 1) | PosInfinity \<Rightarrow> PosInfinity
                  | NegInfinity \<Rightarrow> NegInfinity)"

definition js_positive :: "js_number \<Rightarrow> bool" where
  "js_positive x = (case x of Finite r \<Rightarrow> 0 < r | PosInfinity \<Rightarrow> True | NegInfinity \<Rightarrow> False)"

definition js_is_zero :: "js_number \<Rightarrow> bool" where
  "js_is_zero x = (case x of Finite r \<Rightarrow> r = 0 | PosInfinity \<Rightarrow> False | NegInfinity \<Rightarrow> False)"

definition or_number :: "js_number option \<Rightarrow> js_number \<Rightarrow> js_number" where
  "or_number x d = (case x of None \<Rightarrow> d | Some v \<Rightarrow> if js_is_zero v then d else v)"

section \<open>Payloads of the REST interface\<close>

text \<open>
  \<open>GET /quiz-status/{session_id}\<close> answers \<open>{status, error_message?}\<close>;
  \<open>GET /quiz/{session_id}\<close> answers \<open>{quiz: {quiz_metadata, questions}}\<close>.
\<close>

record status_data =
  status :: string
  error_message :: "string option"

record metadata =
  subject :: string
  estimated_time_minutes :: "js_number option"

record question =
  question_id :: string
  question_type :: string
  options :: "string list option"

record quiz_payload =
  quiz_metadata :: "metadata option"
  questions :: "question list option"

record quiz_data =
  quiz :: "quiz_payload option"

text \<open>
  A rejected request: \<open>error.response?.data?.detail\<close> and \<open>error.message\<close>.
\<close>

datatype req_error = ReqError (detail: "string option") (message: string)

datatype 'a response = Resolved 'a | Rejected req_error

datatype log_entry = LogError string | LogInfo string

section \<open>State of the Quiz component (Quiz.jsx)\<close>

text \<open>
  The first eight fields are the route parameter and the seven \<open>useState\<close> cells of
  the component. The others record its surroundings: whether it is mounted, the
  registered \<open>setInterval\<close> (its period in milliseconds), the pending \<open>setTimeout\<close>
  (its delay and the value its callback passes to \<open>setTimeRemaining\<close>), the requests
  sent through \<open>quizAPI\<close> (how many, and the ids of those still in flight), the
  answers passed to each \<open>submitAnswers\<close> call, the target of \<open>navigate\<close>, the
  alerts shown and the console.
\<close>

record quiz_state =
  sessionId :: string
  quizStatus :: string
  quizData :: "quiz_data option"
  currentQuestionIndex :: int
  answers :: "string \<rightharpoonup> string"
  timeRemaining :: "js_number option"
  isSubmitting :: bool
  error :: "string option"
  mounted :: bool
  interval :: "nat option"
  timer :: "(nat \<times> js_number) option"
  statusRequests :: nat
  statusPending :: "nat list"
  quizRequests :: nat
  quizPending :: "nat list"
  submitCalls :: "(string \<rightharpoonup> string) list"
  submitPending :: "nat list"
  navigated :: "(string \<times> string) option"
  alerts :: "string list"
  console :: "log_entry list"

definition initial :: "string \<Rightarrow> quiz_state" where
  "initial sid =
     \<lparr>sessionId = sid, quizStatus = ''loading'', quizData = None,
      currentQuestionIndex = 0, answers = Map.empty, timeRemaining = None,
      isSubmitting = False, error = None, mounted = True, interval = None,
      timer = None, statusRequests = 0, statusPending = [], quizRequests = 0,
      quizPending = [], submitCalls = [], submitPending = [], navigated = None,
      alerts = [], console = []\<rparr>"

subsection \<open>State setters\<close>

text \<open>
  The setters reached from a promise continuation or a timer do nothing once the
  component is unmounted. \<open>setAnswers\<close> and \<open>setCurrentQuestionIndex\<close> are called
  from click handlers only, which exist only while the quiz screen is rendered.
\<close>

definition setQuizStatus :: "string \<Rightarrow> quiz_state \<Rightarrow> quiz_state" where
  "setQuizStatus v s = (if mounted s then s\<lparr>quizStatus := v\<rparr> else s)"

definition setError :: "string \<Rightarrow> quiz_state \<Rightarrow> quiz_state" where
  "setError v s = (if mounted s then s\<lparr>error := Some v\<rparr> else s)"

definition setIsSubmitting :: "bool \<Rightarrow> quiz_state \<Rightarrow> quiz_state" where
  "setIsSubmitting v s = (if mounted s then s\<lparr>isSubmitting := v\<rparr> else s)"

definition setAnswers ::
  "((string \<rightharpoonup> string) \<Rightarrow> (string \<rightharpoonup> string)) \<Rightarrow> quiz_state \<Rightarrow> quiz_state" where
  "setAnswers f s = s\<lparr>answers := f (answers s)\<rparr>"

definition setCurrentQuestionIndex :: "int \<Rightarrow> quiz_state \<Rightarrow> quiz_state" where
  "setCurrentQuestionIndex v s = s\<lparr>currentQuestionIndex := v\<rparr>"

subsection \<open>handleSubmitQuiz and the countdown effect\<close>

text \<open>
  \<open>handleSubmitQuiz\<close> up to its \<open>await\<close>: it sets \<open>isSubmitting\<close> and calls
  \<open>quizAPI.submitAnswers(sessionId, answers)\<close>. It reads no state before doing so.
\<close>

definition handleSubmitQuiz :: "quiz_state \<Rightarrow> quiz_state" where
  "handleSubmitQuiz s =
     (let s1 = setIsSubmitting True s
      in s1\<lparr>submitCalls := submitCalls s1 @ [answers s1],
            submitPending := submitPending s1 @ [length (submitCalls s1)]\<rparr>)"

text \<open>
  The effect on \<open>[timeRemaining]\<close>. React runs the cleanup of the previous run
  (\<open>clearTimeout\<close>) and then the body: a positive value arms a timer of 1000 ms
  whose callback sets \<open>timeRemaining - 1\<close>, zero calls \<open>handleSubmitQuiz\<close>.
\<close>

definition countdownEffect :: "quiz_state \<Rightarrow> quiz_state" where
  "countdownEffect s =
     (let s0 = s\<lparr>timer := None\<rparr>
      in case timeRemaining s0 of
           None \<Rightarrow> s0
         | Some t \<Rightarrow>
             if js_positive t then s0\<lparr>timer := Some (1000, js_minus1 t)\<rparr>
             else if js_is_zero t then handleSubmitQuiz s0
             else s0)"

text \<open>
  \<open>setTimeRemaining\<close> with the render that follows: React re-renders, and runs the
  effect again, only when the value changed.
\<close>

definition setTimeRemaining :: "js_number \<Rightarrow> quiz_state \<Rightarrow> quiz_state" where
  "setTimeRemaining v s =
     (if mounted s \<and> timeRemaining s \<noteq> Some v
      then countdownEffect (s\<lparr>timeRemaining := Some v\<rparr>)
      else s)"

text \<open>The effect on \<open>[quizData]\<close>, which seeds the countdown.\<close>

definition seedEffect :: "quiz_state \<Rightarrow> quiz_state" where
  "seedEffect s =
     (case quizData s of
        None \<Rightarrow> s
      | Some d \<Rightarrow>
          (case quiz d of
             None \<Rightarrow> s
           | Some q \<Rightarrow>
               (case quiz_metadata q of
                  None \<Rightarrow> s
                | Some m \<Rightarrow>
                    (let estimatedMinutes = or_number (estimated_time_minutes m) (Finite 20)
                     in setTimeRemaining (js_times60 estimatedMinutes) s))))"

text \<open>
  \<open>setQuizData\<close> with the render that follows. Every response carries a fresh
  object, so the effect on \<open>[quizData]\<close> runs each time.
\<close>

definition setQuizData :: "quiz_data \<Rightarrow> quiz_state \<Rightarrow> quiz_state" where
  "setQuizData d s = (if mounted s then seedEffect (s\<lparr>quizData := Some d\<rparr>) else s)"

subsection \<open>checkQuizStatus and the polling effect\<close>

text \<open>
  \<open>checkQuizStatus\<close> up to its first \<open>await\<close>: it sends a status request. Request
  ids count from 0 in the order of issue.
\<close>

definition checkQuizStatus :: "quiz_state \<Rightarrow> quiz_state" where
  "checkQuizStatus s =
     s\<lparr>statusRequests := statusRequests s + 1,
       statusPending := statusPending s @ [statusRequests s]\<rparr>"

text \<open>The \<open>catch\<close> block of \<open>checkQuizStatus\<close>.\<close>

definition checkQuizStatus_catch :: "req_error \<Rightarrow> quiz_state \<Rightarrow> quiz_state" where
  "checkQuizStatus_catch e s =
     setError (''Failed to load quiz: '' @ or_string (detail e) (message e))
       (s\<lparr>console := console s @ [LogError ''Error checking quiz status:'']\<rparr>)"

text \<open>The continuation after \<open>await quizAPI.getQuizStatus(sessionId)\<close>.\<close>

definition checkQuizStatus_onStatus ::
  "status_data response \<Rightarrow> quiz_state \<Rightarrow> quiz_state" where
  "checkQuizStatus_onStatus r s =
     (case r of
        Rejected e \<Rightarrow> checkQuizStatus_catch e s
      | Resolved d \<Rightarrow>
          (let s1 = setQuizStatus (status d) s
           in if status d = ''ready''
              then s1\<lparr>quizRequests := quizRequests s1 + 1,
                      quizPending := quizPending s1 @ [quizRequests s1]\<rparr>
              else if status d = ''failed''
              then setError (''Quiz generation failed: ''
                             @ or_string (error_message d) ''Unknown error'') s1
              else s1))"

text \<open>The continuation after \<open>await quizAPI.getQuiz(sessionId)\<close>.\<close>

definition checkQuizStatus_onQuiz ::
  "quiz_data response \<Rightarrow> quiz_state \<Rightarrow> quiz_state" where
  "checkQuizStatus_onQuiz r s =
     (case r of
        Rejected e \<Rightarrow> checkQuizStatus_catch e s
      | Resolved d \<Rightarrow>
          (let s1 = setQuizData d s
           in s1\<lparr>console := console s1 @ [LogInfo ''Quiz loaded successfully'']\<rparr>))"

text \<open>
  The effect on \<open>[sessionId]\<close>: one call at once, then \<open>setInterval\<close> with a period
  of 3000 ms. Its cleanup is \<open>clearInterval\<close>.
\<close>

definition pollingEffect :: "quiz_state \<Rightarrow> quiz_state" where
  "pollingEffect s = (checkQuizStatus s)\<lparr>interval := Some 3000\<rparr>"

text \<open>
  Mounting runs the three effects in order. The route parameter stays the same for
  the life of the component.
\<close>

definition mount :: "string \<Rightarrow> quiz_state" where
  "mount sid = countdownEffect (seedEffect (pollingEffect (initial sid)))"

text \<open>Unmounting runs the cleanups: \<open>clearInterval\<close> and \<open>clearTimeout\<close>.\<close>

definition unmount :: "quiz_state \<Rightarrow> quiz_state" where
  "unmount s = s\<lparr>mounted := False, interval := None, timer := None\<rparr>"

text \<open>
  The continuation after \<open>await quizAPI.submitAnswers(sessionId, answers)\<close>:
  \<open>navigate\<close> leaves the quiz route, which unmounts the component; a failure is
  logged, alerted and clears \<open>isSubmitting\<close>.
\<close>

definition handleSubmitQuiz_onResult ::
  "string response \<Rightarrow> quiz_state \<Rightarrow> quiz_state" where
  "handleSubmitQuiz_onResult r s =
     (case r of
        Resolved results \<Rightarrow>
          unmount (s\<lparr>navigated := Some (''/results/'' @ sessionId s, results)\<rparr>)
      | Rejected e \<Rightarrow>
          setIsSubmitting False
            (s\<lparr>console := console s @ [LogError ''Error submitting quiz:''],
               alerts := alerts s @ [''Failed to submit quiz. Please try again.'']\<rparr>))"

subsection \<open>Click handlers\<close>

text \<open>The updater \<open>prev => ({ ...prev, [questionId]: answer })\<close>.\<close>

definition answer_updater ::
  "string \<Rightarrow> string \<Rightarrow> (string \<rightharpoonup> string) \<Rightarrow> (string \<rightharpoonup> string)" where
  "answer_updater questionId answer prev = prev(questionId \<mapsto> answer)"

definition handleAnswerChange :: "string \<Rightarrow> string \<Rightarrow> quiz_state \<Rightarrow> quiz_state" where
  "handleAnswerChange questionId answer s = setAnswers (answer_updater questionId answer) s"

text \<open>
  \<open>questions\<close> is the list the current render took from \<open>quizData.quiz.questions\<close>.
\<close>

definition handleNextQuestion :: "question list \<Rightarrow> quiz_state \<Rightarrow> quiz_state" where
  "handleNextQuestion qs s =
     (if currentQuestionIndex s < int (length qs) - 1
      then setCurrentQuestionIndex (currentQuestionIndex s + 1) s
      else s)"

definition handlePreviousQuestion :: "quiz_state \<Rightarrow> quiz_state" where
  "handlePreviousQuestion s =
     (if currentQuestionIndex s > 0
      then setCurrentQuestionIndex (currentQuestionIndex s - 1) s
      else s)"

text \<open>A sequence of clicks on the two navigation buttons.\<close>

datatype nav = Next | Previous

fun navigate_questions :: "question list \<Rightarrow> quiz_state \<Rightarrow> nav list \<Rightarrow> quiz_state" where
  "navigate_questions qs s [] = s"
| "navigate_questions qs s (Next # ns) = navigate_questions qs (handleNextQuestion qs s) ns"
| "navigate_questions qs s (Previous # ns) = navigate_questions qs (handlePreviousQuestion s) ns"

subsection \<open>What the component renders\<close>

text \<open>
  The branches of the render in their order. The quiz screen reads
  \<open>quizData.quiz.quiz_metadata.subject\<close> and \<open>questions[currentQuestionIndex].id\<close>;
  both throw when the object is missing, which is \<open>RenderThrows\<close>.
\<close>

datatype screen =
  GeneratingScreen | ErrorScreen string | LoadingQuestionsScreen | QuizScreen | RenderThrows

definition loaded_quiz :: "quiz_state \<Rightarrow> quiz_payload option" where
  "loaded_quiz s = (case quizData s of None \<Rightarrow> None | Some d \<Rightarrow> quiz d)"

definition loaded_questions :: "quiz_state \<Rightarrow> question list option" where
  "loaded_questions s = (case loaded_quiz s of None \<Rightarrow> None | Some q \<Rightarrow> questions q)"

definition render :: "quiz_state \<Rightarrow> screen" where
  "render s =
     (if quizStatus s = ''loading'' \<or> quizStatus s = ''generating'' then GeneratingScreen
      else if truthy (error s) \<or> quizStatus s = ''failed''
      then ErrorScreen (or_string (error s) ''Quiz generation failed.'')
      else case loaded_questions s of
             None \<Rightarrow> LoadingQuestionsScreen
           | Some qs \<Rightarrow>
               if 0 \<le> currentQuestionIndex s \<and> currentQuestionIndex s < int (length qs)
                  \<and> (case loaded_quiz s of None \<Rightarrow> False | Some q \<Rightarrow> quiz_metadata q \<noteq> None)
               then QuizScreen else RenderThrows)"

text \<open>The questions of the quiz screen, when that is what is on display.\<close>

definition shown_questions :: "quiz_state \<Rightarrow> question list option" where
  "shown_questions s =
     (if mounted s \<and> render s = QuizScreen then loaded_questions s else None)"

definition isLastQuestion :: "question list \<Rightarrow> quiz_state \<Rightarrow> bool" where
  "isLastQuestion qs s = (currentQuestionIndex s = int (length qs) - 1)"

section \<open>The event loop\<close>

text \<open>
  The component does all its work in callbacks that the browser runs one at a time:
  a firing of the interval, a firing of the pending timeout, the arrival of the
  response to a request in flight (by request id, in any order), a click, and the
  unmounting of the component. When each one happens is the browser's, the
  network's and the user's choice.
\<close>

datatype event =
    IntervalFire
  | TimeoutFire
  | StatusResponse nat "status_data response"
  | QuizResponse nat "quiz_data response"
  | SubmitResponse nat "string response"
  | ClickAnswer string
  | ClickNext
  | ClickPrevious
  | ClickSubmit
  | Unmount

text \<open>
  \<open>fire\<close> runs the callback of an event; it is \<open>None\<close> when the event cannot
  happen in that state: a timer that is not armed, a response to a request that is
  not in flight, a click on a button that is not rendered or is disabled.
\<close>

fun fire :: "quiz_state \<Rightarrow> event \<Rightarrow> quiz_state option" where
  "fire s IntervalFire =
     (case interval s of None \<Rightarrow> None | Some p \<Rightarrow> Some (checkQuizStatus s))"
| "fire s TimeoutFire =
     (case timer s of
        None \<Rightarrow> None
      | Some (d, v) \<Rightarrow> Some (setTimeRemaining v (s\<lparr>timer := None\<rparr>)))"
| "fire s (StatusResponse rid r) =
     (if rid \<in> set (statusPending s)
      then Some (checkQuizStatus_onStatus r
                   (s\<lparr>statusPending := removeAll rid (statusPending s)\<rparr>))
      else None)"
| "fire s (QuizResponse rid r) =
     (if rid \<in> set (quizPending s)
      then Some (checkQuizStatus_onQuiz r
                   (s\<lparr>quizPending := removeAll rid (quizPending s)\<rparr>))
      else None)"
| "fire s (SubmitResponse rid r) =
     (if rid \<in> set (submitPending s)
      then Some (handleSubmitQuiz_onResult r
                   (s\<lparr>submitPending := removeAll rid (submitPending s)\<rparr>))
      else None)"
| "fire s (ClickAnswer a) =
     (case shown_questions s of
        None \<Rightarrow> None
      | Some qs \<Rightarrow>
          Some (handleAnswerChange (question_id (qs ! nat (currentQuestionIndex s))) a s))"
| "fire s ClickNext =
     (case shown_questions s of
        None \<Rightarrow> None
      | Some qs \<Rightarrow> if isLastQuestion qs s then None else Some (handleNextQuestion qs s))"
| "fire s ClickPrevious =
     (case shown_questions s of
        None \<Rightarrow> None
      | Some qs \<Rightarrow>
          if currentQuestionIndex s = 0 then None else Some (handlePreviousQuestion s))"
| "fire s ClickSubmit =
     (case shown_questions s of
        None \<Rightarrow> None
      | Some qs \<Rightarrow>
          if isLastQuestion qs s \<and> \<not> isSubmitting s then Some (handleSubmitQuiz s) else None)"
| "fire s Unmount = (if mounted s then Some (unmount s) else None)"

text \<open>
  A step is an event whose callback leaves a state that renders. What happens
  after a render has thrown depends on the error boundary of the application, which
  is outside Quiz.jsx, so such a step is \<open>None\<close>.
\<close>

definition step :: "quiz_state \<Rightarrow> event \<Rightarrow> quiz_state option" where
  "step s e =
     (case fire s e of
        None \<Rightarrow> None
      | Some s' \<Rightarrow> if mounted s' \<and> render s' = RenderThrows then None else Some s')"

fun run :: "quiz_state \<Rightarrow> event list \<Rightarrow> quiz_state option" where
  "run s [] = Some s"
| "run s (e # es) = (case step s e of None \<Rightarrow> None | Some s' \<Rightarrow> run s' es)"

section \<open>Results.jsx, Dashboard and History.jsx\<close>

text \<open>
  \<open>getScoreMessage\<close> of Results.jsx returns one of five sentences:
  "Outstanding! You've mastered this subject!", "Great job! You have a solid
  understanding!", "Good work! Keep practicing to improve!", "Not bad! Review the
  topics you missed." and "Keep studying! Practice makes perfect!". The percentage
  is a number of the JSON response, hence finite.
\<close>

datatype score_message = Outstanding | GreatJob | GoodWork | NotBad | KeepStudying

definition getScoreMessage :: "rat \<Rightarrow> score_message" where
  "getScoreMessage percentage =
     (if percentage \<ge> 90 then Outstanding
      else if percentage \<ge> 80 then GreatJob
      else if percentage \<ge> 70 then GoodWork
      else if percentage \<ge> 60 then NotBad
      else KeepStudying)"

text \<open>
  Modelled from the spec: the percentage computed by the Grading Engine of the
  backend, which is not among the sources. Section 4.4:
  \<open>percentage = points_earned / total_points * 100\<close>, here over exact rationals.
\<close>

definition percentage_of :: "rat \<Rightarrow> rat \<Rightarrow> rat" where
  "percentage_of points_earned total_points = points_earned / total_points * 100"

text \<open>
  Modelled from the spec: the letter grade given by the Grading Engine of the
  backend, which is not among the sources. Section 3: the grade is a letter derived
  from the percentage by the thresholds A \<open>\<ge>\<close> 90, B \<open>\<ge>\<close> 80, C \<open>\<ge>\<close> 70,
  D \<open>\<ge>\<close> 60, F otherwise.
\<close>

definition grade_of :: "rat \<Rightarrow> string" where
  "grade_of percentage =
     (if percentage \<ge> 90 then ''A''
      else if percentage \<ge> 80 then ''B''
      else if percentage \<ge> 70 then ''C''
      else if percentage \<ge> 60 then ''D''
      else ''F'')"

text \<open>An entry of \<open>GET /history\<close>: \<open>{session_id, subject, status, created_at}\<close>.\<close>

record session =
  session_id :: string
  session_subject :: string
  session_status :: string
  created_at :: int

text \<open>
  \<open>loadDashboardData\<close> of the Dashboard keeps \<open>sessions.slice(0, 5)\<close> of the history
  response and the empty list when the request fails; \<open>loadHistory\<close> of History.jsx
  stores the list as it is and leaves the state as it was on failure.
\<close>

definition loadDashboardData_recentSessions :: "session list response \<Rightarrow> session list" where
  "loadDashboardData_recentSessions r =
     (case r of Resolved sessions \<Rightarrow> take 5 sessions | Rejected e \<Rightarrow> [])"

definition loadHistory :: "session list response \<Rightarrow> session list \<Rightarrow> session list" where
  "loadHistory r sessions0 =
     (case r of Resolved sessions \<Rightarrow> sessions | Rejected e \<Rightarrow> sessions0)"

text \<open>
  Modelled from the spec: the History query of the backend, which is not among the
  sources. Section 4.2: it returns all sessions ordered by creation time,
  most-recent-first.
\<close>

definition history_query :: "session list \<Rightarrow> session list" where
  "history_query store = rev (sort_key created_at store)"

section \<open>Notions used in the statements\<close>

text \<open>The seed of the countdown that a quiz response carries, if it has metadata.\<close>

definition seed_value :: "quiz_data \<Rightarrow> js_number option" where
  "seed_value d =
     (case quiz d of
        None \<Rightarrow> None
      | Some q \<Rightarrow>
          (case quiz_metadata q of
             None \<Rightarrow> None
           | Some m \<Rightarrow> Some (js_times60 (or_number (estimated_time_minutes m) (Finite 20)))))"

text \<open>
  The timers agree with the state: a mounted component has its interval of 3000 ms
  and, when the countdown is positive, a timeout of 1000 ms that will set the
  countdown to one less, or none once a firing has left the countdown as it was;
  an unmounted component has neither.
\<close>

definition timers_ok :: "quiz_state \<Rightarrow> bool" where
  "timers_ok s =
     (if mounted s
      then interval s = Some 3000
           \<and> (case timeRemaining s of
                 None \<Rightarrow> timer s = None
               | Some t \<Rightarrow>
                   if js_positive t
                   then timer s = Some (1000, js_minus1 t)
                        \<or> (timer s = None \<and> js_minus1 t = t)
                   else timer s = None)
      else interval s = None \<and> timer s = None)"

text \<open>A whole number within the range in which doubles hold every integer.\<close>

definition safe_integer :: "rat \<Rightarrow> bool" where
  "safe_integer r = (case quotient_of r of (p, q) \<Rightarrow> q = 1 \<and> \<bar>p\<bar> \<le> 9007199254740992)"

text \<open>An event that delivers the quiz.\<close>

definition delivers_quiz :: "event \<Rightarrow> bool" where
  "delivers_quiz e =
     (case e of
        QuizResponse rid r \<Rightarrow> (case r of Resolved d \<Rightarrow> True | Rejected x \<Rightarrow> False)
      | _ \<Rightarrow> False)"

definition renders :: "quiz_state \<Rightarrow> bool" where
  "renders s = (if mounted s then render s \<noteq> RenderThrows else True)"

text \<open>The status that an event delivers, if it is a successful status response.\<close>

definition arrived_status :: "event \<Rightarrow> string option" where
  "arrived_status e =
     (case e of
        StatusResponse rid r \<Rightarrow> (case r of Resolved d \<Rightarrow> Some (status d) | Rejected x \<Rightarrow> None)
      | _ \<Rightarrow> None)"

definition observes_ready :: "event \<Rightarrow> bool" where
  "observes_ready e = (arrived_status e = Some ''ready'')"

text \<open>The status of the last successful status response of a trace, in order of arrival.\<close>

fun last_arrived :: "string \<Rightarrow> event list \<Rightarrow> string" where
  "last_arrived cur [] = cur"
| "last_arrived cur (e # es) =
     last_arrived (case arrived_status e of None \<Rightarrow> cur | Some st \<Rightarrow> st) es"

text \<open>A mounted component whose timers agree with its state and which renders.\<close>

definition run_ok :: "quiz_state \<Rightarrow> bool" where
  "run_ok s = (mounted s \<and> timers_ok s \<and> renders s)"

section \<open>Concrete data for the examples\<close>

text \<open>
  Seconds of the countdown with the polls that fall among them: three firings of
  the countdown timeout, then one firing of the polling interval, whose response
  stays outstanding.
\<close>

fun polling_rounds :: "nat \<Rightarrow> event list" where
  "polling_rounds 0 = []"
| "polling_rounds (Suc n) =
     [TimeoutFire, TimeoutFire, TimeoutFire, IntervalFire] @ polling_rounds n"

definition example_question :: "string \<Rightarrow> question" where
  "example_question i =
     \<lparr>question_id = i, question_type = ''true_false'', options = None\<rparr>"

definition example_metadata :: "js_number option \<Rightarrow> metadata" where
  "example_metadata minutes = \<lparr>subject = ''Mathematics'', estimated_time_minutes = minutes\<rparr>"

definition example_payload :: "js_number option \<Rightarrow> question list \<Rightarrow> quiz_payload" where
  "example_payload minutes qs =
     \<lparr>quiz_metadata = Some (example_metadata minutes), questions = Some qs\<rparr>"

definition example_quiz :: "int option \<Rightarrow> question list \<Rightarrow> quiz_data" where
  "example_quiz minutes qs =
     \<lparr>quiz = Some (example_payload (map_option (\<lambda>k. Finite (of_int k)) minutes) qs)\<rparr>"

definition example_quiz_of :: "js_number \<Rightarrow> question list \<Rightarrow> quiz_data" where
  "example_quiz_of minutes qs = \<lparr>quiz = Some (example_payload (Some minutes) qs)\<rparr>"

definition example_status :: "string \<Rightarrow> status_data response" where
  "example_status st = Resolved \<lparr>status = st, error_message = None\<rparr>"

definition example_session :: "string \<Rightarrow> int \<Rightarrow> session" where
  "example_session i t =
     \<lparr>session_id = i, session_subject = ''Mathematics'',
      session_status = ''completed'', created_at = t\<rparr>"

section \<open>Whole numbers are exact\<close>

declare bit_length.simps [simp del]

lemma overflow_threshold_code [code]:
  "overflow_threshold =
     179769313486231590772930519078902473361797697894230657273430081157732675805500963132708477322407536021120113879871393357658789768814416622492847430639474124377767893424865485276302219601246094119453082952085005768838150682342462881473913110540827237163350510684586298239947245938479716304835356329624224137216"
  by (simp add: overflow_threshold_def)


lemma bit_length_bounds:
  "0 < n \<Longrightarrow> 1 \<le> bit_length n \<and> 2 ^ nat (bit_length n - 1) \<le> n \<and> n < 2 ^ nat (bit_length n)"
proof (induction n rule: bit_length.induct)
  case (1 n)
  show ?case
  proof (cases "n = 1")
    case True
    then show ?thesis by (simp add: bit_length.simps [of 1] bit_length.simps [of 0])
  next
    case False
    with "1.prems" have h: "0 < n div 2" by linarith
    from "1.IH" [OF "1.prems" h] have ih: "1 \<le> bit_length (n div 2)"
      "2 ^ nat (bit_length (n div 2) - 1) \<le> n div 2" "n div 2 < 2 ^ nat (bit_length (n div 2))"
      by simp_all
    have bl: "bit_length n = 1 + bit_length (n div 2)"
      using "1.prems" by (simp add: bit_length.simps [of n])
    have e1: "nat (bit_length n - 1) = Suc (nat (bit_length (n div 2) - 1))"
      using bl ih(1) by simp
    have e2: "nat (bit_length n) = Suc (nat (bit_length (n div 2)))"
      using bl ih(1) by simp
    have "2 * 2 ^ nat (bit_length (n div 2) - 1) \<le> n" using ih(2) by linarith
    moreover have "n < 2 * 2 ^ nat (bit_length (n div 2))" using ih(3) by linarith
    ultimately show ?thesis using bl ih(1) e1 e2 by simp
  qed
qed

lemma round_half_even_int [simp]: "round_half_even (of_int z) = z"
  by (simp add: round_half_even_def)

lemma fl_int:
  assumes "\<bar>k\<bar> \<le> 2 ^ 53"
  shows "fl (of_int k) = Finite (of_int k)"
proof (cases "k = 0")
  case True
  then show ?thesis by (simp add: fl_def)
next
  case False
  then have pos: "0 < \<bar>k\<bar>" by simp
  define e where "e = bit_length \<bar>k\<bar> - 1"
  from bit_length_bounds [OF pos] have e0: "0 \<le> e" and lo: "2 ^ nat e \<le> \<bar>k\<bar>"
    by (simp_all add: e_def)
  have "(2::int) ^ nat e \<le> 2 ^ 53" using lo assms by linarith
  then have e53: "nat e \<le> 53"
    using power_le_imp_le_exp [of "2::int" "nat e" 53] by simp
  have one: "bit_length 1 = 1" by (simp add: bit_length.simps [of 1] bit_length.simps [of 0])
  have abs_k: "\<bar>of_int k :: rat\<bar> = of_int \<bar>k\<bar>" by simp
  have "(2::rat) ^ nat e \<le> of_int \<bar>k\<bar>"
    using lo by (metis of_int_le_iff of_int_numeral of_int_power)
  then have b: "binade (of_int k) = e"
    using e0 by (simp add: binade_def abs_k one e_def pow2_def del: of_int_abs)
  have r: "of_int (round_half_even (of_int k / pow2 (max (e - 52) (- 1074))))
              * pow2 (max (e - 52) (- 1074)) = (of_int k :: rat)"
  proof (cases "e \<le> 52")
    case True
    have u: "pow2 (max (e - 52) (- 1074)) = 1 / 2 ^ nat (52 - e)"
      using True e0 by (cases "e = 52") (simp_all add: pow2_def max_def)
    have "(of_int k :: rat) / (1 / 2 ^ nat (52 - e)) = of_int (k * 2 ^ nat (52 - e))"
      by simp
    then show ?thesis unfolding u by (simp only: round_half_even_int) simp
  next
    case False
    with e53 e0 have e: "e = 53" by linarith
    then have "\<bar>k\<bar> = 2 ^ 53" using lo assms by simp
    then have "k = 9007199254740992 \<or> k = - 9007199254740992" by auto
    then have "k = 2 * (k div 2)" by auto
    then obtain j where j: "k = 2 * j" ..
    have "(of_int k :: rat) / 2 = of_int j" using j by simp
    then show ?thesis using e j by (simp add: pow2_def max_def)
  qed
  have small: "\<not> overflow_threshold \<le> \<bar>of_int k :: rat\<bar>"
  proof -
    have "(of_int \<bar>k\<bar> :: rat) \<le> 2 ^ 53"
      using assms by (metis of_int_le_iff of_int_numeral of_int_power)
    moreover have "(2::rat) ^ 53 < 2 ^ 1024" by simp
    ultimately show ?thesis by (simp del: of_int_abs add: abs_k overflow_threshold_def)
  qed
  show ?thesis
    using False small by (simp add: fl_def b Let_def r del: of_int_abs)
qed

lemma safe_integerD:
  assumes "safe_integer r"
  obtains k where "r = of_int k" and "\<bar>k\<bar> \<le> 2 ^ 53"
proof -
  obtain p q where pq: "quotient_of r = (p, q)" by (cases "quotient_of r")
  with assms have "q = 1" and "\<bar>p\<bar> \<le> 2 ^ 53" by (simp_all add: safe_integer_def)
  moreover from quotient_of_div [OF pq] \<open>q = 1\<close> have "r = of_int p" by simp
  ultimately show ?thesis using that by blast
qed

lemma safe_integer_int [simp]: "safe_integer (of_int k) = (\<bar>k\<bar> \<le> 2 ^ 53)"
  by (simp add: safe_integer_def)

lemma fl_safe: "safe_integer r \<Longrightarrow> fl r = Finite r"
  by (erule safe_integerD) (simp add: fl_int)

lemma js_times60_code [code]:
  "js_times60 x =
     (case x of
        Finite r \<Rightarrow> if safe_integer (r * 60) then Finite (r * 60) else fl (r * 60)
      | PosInfinity \<Rightarrow> PosInfinity
      | NegInfinity \<Rightarrow> NegInfinity)"
  by (simp add: js_times60_def fl_safe split: js_number.splits)

lemma js_minus1_code [code]:
  "js_minus1 x =
     (case x of
        Finite r \<Rightarrow> if safe_integer (r - 1) then Finite (r - 1) else fl (r - 1)
      | PosInfinity \<Rightarrow> PosInfinity
      | NegInfinity \<Rightarrow> NegInfinity)"
  by (simp add: js_minus1_def fl_safe split: js_number.splits)

lemma js_times60_int:
  "\<bar>k\<bar> * 60 \<le> 2 ^ 53 \<Longrightarrow> js_times60 (Finite (of_int k)) = Finite (of_int (k * 60))"
  using fl_int [of "k * 60"] by (simp add: js_times60_def abs_mult)

lemma js_minus1_int:
  "0 < k \<Longrightarrow> k \<le> 2 ^ 53 \<Longrightarrow> js_minus1 (Finite (of_int k)) = Finite (of_int (k - 1))"
  using fl_int [of "k - 1"] by (simp add: js_minus1_def)

lemma js_positive_int [simp]: "js_positive (Finite (of_int k)) = (0 < k)"
  by (simp add: js_positive_def)

lemma js_is_zero_iff: "js_is_zero t = (t = Finite 0)"
  by (simp add: js_is_zero_def split: js_number.splits)

lemma js_positive_zero [simp]: "\<not> js_positive (Finite 0)"
  by (simp add: js_positive_def)

section \<open>What each callback changes\<close>

lemma handleSubmitQuiz_same [simp]:
  "quizStatus (handleSubmitQuiz s) = quizStatus s"
  "quizData (handleSubmitQuiz s) = quizData s"
  "currentQuestionIndex (handleSubmitQuiz s) = currentQuestionIndex s"
  "answers (handleSubmitQuiz s) = answers s"
  "timeRemaining (handleSubmitQuiz s) = timeRemaining s"
  "error (handleSubmitQuiz s) = error s"
  "mounted (handleSubmitQuiz s) = mounted s"
  "interval (handleSubmitQuiz s) = interval s"
  "timer (handleSubmitQuiz s) = timer s"
  "statusRequests (handleSubmitQuiz s) = statusRequests s"
  "statusPending (handleSubmitQuiz s) = statusPending s"
  "quizRequests (handleSubmitQuiz s) = quizRequests s"
  "quizPending (handleSubmitQuiz s) = quizPending s"
  "console (handleSubmitQuiz s) = console s"
  by (simp_all add: handleSubmitQuiz_def setIsSubmitting_def Let_def)

lemma handleSubmitQuiz_calls [simp]:
  "submitCalls (handleSubmitQuiz s) = submitCalls s @ [answers s]"
  "submitPending (handleSubmitQuiz s) = submitPending s @ [length (submitCalls s)]"
  "isSubmitting (handleSubmitQuiz s) = (mounted s \<or> isSubmitting s)"
  by (simp_all add: handleSubmitQuiz_def setIsSubmitting_def Let_def)

lemma countdownEffect_same [simp]:
  "quizStatus (countdownEffect s) = quizStatus s"
  "quizData (countdownEffect s) = quizData s"
  "currentQuestionIndex (countdownEffect s) = currentQuestionIndex s"
  "answers (countdownEffect s) = answers s"
  "timeRemaining (countdownEffect s) = timeRemaining s"
  "error (countdownEffect s) = error s"
  "mounted (countdownEffect s) = mounted s"
  "interval (countdownEffect s) = interval s"
  "statusRequests (countdownEffect s) = statusRequests s"
  "statusPending (countdownEffect s) = statusPending s"
  "quizRequests (countdownEffect s) = quizRequests s"
  "quizPending (countdownEffect s) = quizPending s"
  "console (countdownEffect s) = console s"
  by (simp_all add: countdownEffect_def Let_def split: option.splits)

lemma countdownEffect_timer [simp]:
  "timer (countdownEffect s) =
     (case timeRemaining s of None \<Rightarrow> None
      | Some t \<Rightarrow> if js_positive t then Some (1000, js_minus1 t) else None)"
  by (simp add: countdownEffect_def Let_def split: option.splits)

lemma countdownEffect_calls [simp]:
  "submitCalls (countdownEffect s) =
     (if timeRemaining s = Some (Finite 0) then submitCalls s @ [answers s] else submitCalls s)"
  "submitPending (countdownEffect s) =
     (if timeRemaining s = Some (Finite 0) then submitPending s @ [length (submitCalls s)]
      else submitPending s)"
  "isSubmitting (countdownEffect s) =
     ((timeRemaining s = Some (Finite 0) \<and> mounted s) \<or> isSubmitting s)"
  by (auto simp add: countdownEffect_def Let_def js_is_zero_iff split: option.splits)

lemma setTimeRemaining_same [simp]:
  "quizStatus (setTimeRemaining v s) = quizStatus s"
  "quizData (setTimeRemaining v s) = quizData s"
  "currentQuestionIndex (setTimeRemaining v s) = currentQuestionIndex s"
  "answers (setTimeRemaining v s) = answers s"
  "error (setTimeRemaining v s) = error s"
  "mounted (setTimeRemaining v s) = mounted s"
  "interval (setTimeRemaining v s) = interval s"
  "statusRequests (setTimeRemaining v s) = statusRequests s"
  "statusPending (setTimeRemaining v s) = statusPending s"
  "quizRequests (setTimeRemaining v s) = quizRequests s"
  "quizPending (setTimeRemaining v s) = quizPending s"
  "console (setTimeRemaining v s) = console s"
  by (simp_all add: setTimeRemaining_def)

lemma setTimeRemaining_value [simp]:
  "timeRemaining (setTimeRemaining v s) = (if mounted s then Some v else timeRemaining s)"
  by (simp add: setTimeRemaining_def)

lemma setTimeRemaining_timer [simp]:
  "timer (setTimeRemaining v s) =
     (if mounted s \<and> timeRemaining s \<noteq> Some v
      then (if js_positive v then Some (1000, js_minus1 v) else None)
      else timer s)"
  by (simp add: setTimeRemaining_def)

lemma setTimeRemaining_calls [simp]:
  "submitCalls (setTimeRemaining v s) =
     (if mounted s \<and> timeRemaining s \<noteq> Some v \<and> v = Finite 0
      then submitCalls s @ [answers s] else submitCalls s)"
  "submitPending (setTimeRemaining v s) =
     (if mounted s \<and> timeRemaining s \<noteq> Some v \<and> v = Finite 0
      then submitPending s @ [length (submitCalls s)] else submitPending s)"
  "isSubmitting (setTimeRemaining v s) =
     ((mounted s \<and> timeRemaining s \<noteq> Some v \<and> v = Finite 0) \<or> isSubmitting s)"
  by (auto simp add: setTimeRemaining_def)



lemma setQuizData_same [simp]:
  "quizStatus (setQuizData d s) = quizStatus s"
  "currentQuestionIndex (setQuizData d s) = currentQuestionIndex s"
  "answers (setQuizData d s) = answers s"
  "error (setQuizData d s) = error s"
  "mounted (setQuizData d s) = mounted s"
  "interval (setQuizData d s) = interval s"
  "statusRequests (setQuizData d s) = statusRequests s"
  "statusPending (setQuizData d s) = statusPending s"
  "quizRequests (setQuizData d s) = quizRequests s"
  "quizPending (setQuizData d s) = quizPending s"
  "console (setQuizData d s) = console s"
  by (simp_all add: setQuizData_def seedEffect_def Let_def split: option.splits)

lemma setQuizData_quizData [simp]:
  "quizData (setQuizData d s) = (if mounted s then Some d else quizData s)"
  by (simp add: setQuizData_def seedEffect_def Let_def split: option.splits)

lemma setQuizData_timeRemaining [simp]:
  "timeRemaining (setQuizData d s) =
     (if mounted s then (case seed_value d of None \<Rightarrow> timeRemaining s | Some v \<Rightarrow> Some v)
      else timeRemaining s)"
  by (simp add: setQuizData_def seedEffect_def seed_value_def Let_def split: option.splits)

lemma setQuizData_timer [simp]:
  "timer (setQuizData d s) =
     (if mounted s
      then (case seed_value d of
              None \<Rightarrow> timer s
            | Some v \<Rightarrow> if timeRemaining s \<noteq> Some v
                        then (if js_positive v then Some (1000, js_minus1 v) else None)
                        else timer s)
      else timer s)"
  by (simp add: setQuizData_def seedEffect_def seed_value_def Let_def split: option.splits)

lemma checkQuizStatus_fields [simp]:
  "quizStatus (checkQuizStatus s) = quizStatus s"
  "quizData (checkQuizStatus s) = quizData s"
  "currentQuestionIndex (checkQuizStatus s) = currentQuestionIndex s"
  "timeRemaining (checkQuizStatus s) = timeRemaining s"
  "error (checkQuizStatus s) = error s"
  "mounted (checkQuizStatus s) = mounted s"
  "interval (checkQuizStatus s) = interval s"
  "timer (checkQuizStatus s) = timer s"
  "statusRequests (checkQuizStatus s) = statusRequests s + 1"
  "statusPending (checkQuizStatus s) = statusPending s @ [statusRequests s]"
  "quizRequests (checkQuizStatus s) = quizRequests s"
  "quizPending (checkQuizStatus s) = quizPending s"
  "submitCalls (checkQuizStatus s) = submitCalls s"
  "submitPending (checkQuizStatus s) = submitPending s"
  "isSubmitting (checkQuizStatus s) = isSubmitting s"
  "console (checkQuizStatus s) = console s"
  by (simp_all add: checkQuizStatus_def)

lemma checkQuizStatus_catch_fields [simp]:
  "quizStatus (checkQuizStatus_catch e s) = quizStatus s"
  "quizData (checkQuizStatus_catch e s) = quizData s"
  "currentQuestionIndex (checkQuizStatus_catch e s) = currentQuestionIndex s"
  "timeRemaining (checkQuizStatus_catch e s) = timeRemaining s"
  "mounted (checkQuizStatus_catch e s) = mounted s"
  "interval (checkQuizStatus_catch e s) = interval s"
  "timer (checkQuizStatus_catch e s) = timer s"
  "statusRequests (checkQuizStatus_catch e s) = statusRequests s"
  "statusPending (checkQuizStatus_catch e s) = statusPending s"
  "quizRequests (checkQuizStatus_catch e s) = quizRequests s"
  "quizPending (checkQuizStatus_catch e s) = quizPending s"
  "submitCalls (checkQuizStatus_catch e s) = submitCalls s"
  "submitPending (checkQuizStatus_catch e s) = submitPending s"
  "isSubmitting (checkQuizStatus_catch e s) = isSubmitting s"
  "console (checkQuizStatus_catch e s) = console s @ [LogError ''Error checking quiz status:'']"
  "error (checkQuizStatus_catch e s) =
     (if mounted s then Some (''Failed to load quiz: '' @ or_string (detail e) (message e))
      else error s)"
  by (simp_all add: checkQuizStatus_catch_def setError_def)

lemma checkQuizStatus_onStatus_same [simp]:
  "quizData (checkQuizStatus_onStatus r s) = quizData s"
  "currentQuestionIndex (checkQuizStatus_onStatus r s) = currentQuestionIndex s"
  "timeRemaining (checkQuizStatus_onStatus r s) = timeRemaining s"
  "mounted (checkQuizStatus_onStatus r s) = mounted s"
  "interval (checkQuizStatus_onStatus r s) = interval s"
  "timer (checkQuizStatus_onStatus r s) = timer s"
  "statusRequests (checkQuizStatus_onStatus r s) = statusRequests s"
  "statusPending (checkQuizStatus_onStatus r s) = statusPending s"
  "submitCalls (checkQuizStatus_onStatus r s) = submitCalls s"
  "submitPending (checkQuizStatus_onStatus r s) = submitPending s"
  "isSubmitting (checkQuizStatus_onStatus r s) = isSubmitting s"
  by (simp_all add: checkQuizStatus_onStatus_def setQuizStatus_def setError_def Let_def
        split: response.splits)

lemma checkQuizStatus_onStatus_resolved [simp]:
  "quizStatus (checkQuizStatus_onStatus (Resolved d) s) =
     (if mounted s then status d else quizStatus s)"
  "quizRequests (checkQuizStatus_onStatus (Resolved d) s) =
     (if status d = ''ready'' then quizRequests s + 1 else quizRequests s)"
  "quizPending (checkQuizStatus_onStatus (Resolved d) s) =
     (if status d = ''ready'' then quizPending s @ [quizRequests s] else quizPending s)"
  "console (checkQuizStatus_onStatus (Resolved d) s) = console s"
  "error (checkQuizStatus_onStatus (Resolved d) s) =
     (if mounted s \<and> status d = ''failed''
      then Some (''Quiz generation failed: '' @ or_string (error_message d) ''Unknown error'')
      else error s)"
  by (simp_all add: checkQuizStatus_onStatus_def setQuizStatus_def setError_def Let_def)

lemma checkQuizStatus_onStatus_rejected [simp]:
  "checkQuizStatus_onStatus (Rejected e) s = checkQuizStatus_catch e s"
  by (simp add: checkQuizStatus_onStatus_def)

lemma checkQuizStatus_onQuiz_same [simp]:
  "quizStatus (checkQuizStatus_onQuiz r s) = quizStatus s"
  "currentQuestionIndex (checkQuizStatus_onQuiz r s) = currentQuestionIndex s"
  "mounted (checkQuizStatus_onQuiz r s) = mounted s"
  "interval (checkQuizStatus_onQuiz r s) = interval s"
  "statusRequests (checkQuizStatus_onQuiz r s) = statusRequests s"
  "statusPending (checkQuizStatus_onQuiz r s) = statusPending s"
  "quizRequests (checkQuizStatus_onQuiz r s) = quizRequests s"
  "quizPending (checkQuizStatus_onQuiz r s) = quizPending s"
  by (simp_all add: checkQuizStatus_onQuiz_def Let_def split: response.splits)

lemma checkQuizStatus_onQuiz_resolved [simp]:
  "quizData (checkQuizStatus_onQuiz (Resolved d) s) = (if mounted s then Some d else quizData s)"
  "error (checkQuizStatus_onQuiz (Resolved d) s) = error s"
  "timeRemaining (checkQuizStatus_onQuiz (Resolved d) s) = timeRemaining (setQuizData d s)"
  "timer (checkQuizStatus_onQuiz (Resolved d) s) = timer (setQuizData d s)"
  by (simp_all add: checkQuizStatus_onQuiz_def Let_def)

lemma checkQuizStatus_onQuiz_rejected [simp]:
  "checkQuizStatus_onQuiz (Rejected e) s = checkQuizStatus_catch e s"
  by (simp add: checkQuizStatus_onQuiz_def)

lemma unmount_fields [simp]:
  "mounted (unmount s) = False"
  "interval (unmount s) = None"
  "timer (unmount s) = None"
  "quizStatus (unmount s) = quizStatus s"
  "quizData (unmount s) = quizData s"
  "currentQuestionIndex (unmount s) = currentQuestionIndex s"
  "timeRemaining (unmount s) = timeRemaining s"
  "error (unmount s) = error s"
  "statusRequests (unmount s) = statusRequests s"
  "statusPending (unmount s) = statusPending s"
  "quizRequests (unmount s) = quizRequests s"
  "quizPending (unmount s) = quizPending s"
  "submitCalls (unmount s) = submitCalls s"
  "submitPending (unmount s) = submitPending s"
  "console (unmount s) = console s"
  by (simp_all add: unmount_def)

lemma handleSubmitQuiz_onResult_same [simp]:
  "quizStatus (handleSubmitQuiz_onResult r s) = quizStatus s"
  "quizData (handleSubmitQuiz_onResult r s) = quizData s"
  "currentQuestionIndex (handleSubmitQuiz_onResult r s) = currentQuestionIndex s"
  "timeRemaining (handleSubmitQuiz_onResult r s) = timeRemaining s"
  "error (handleSubmitQuiz_onResult r s) = error s"
  "statusRequests (handleSubmitQuiz_onResult r s) = statusRequests s"
  "statusPending (handleSubmitQuiz_onResult r s) = statusPending s"
  "quizRequests (handleSubmitQuiz_onResult r s) = quizRequests s"
  "quizPending (handleSubmitQuiz_onResult r s) = quizPending s"
  "submitCalls (handleSubmitQuiz_onResult r s) = submitCalls s"
  "submitPending (handleSubmitQuiz_onResult r s) = submitPending s"
  by (simp_all add: handleSubmitQuiz_onResult_def setIsSubmitting_def split: response.splits)

lemma handleSubmitQuiz_onResult_timers [simp]:
  "mounted (handleSubmitQuiz_onResult r s) =
     (case r of Resolved x \<Rightarrow> False | Rejected e \<Rightarrow> mounted s)"
  "interval (handleSubmitQuiz_onResult r s) =
     (case r of Resolved x \<Rightarrow> None | Rejected e \<Rightarrow> interval s)"
  "timer (handleSubmitQuiz_onResult r s) =
     (case r of Resolved x \<Rightarrow> None | Rejected e \<Rightarrow> timer s)"
  by (simp_all add: handleSubmitQuiz_onResult_def setIsSubmitting_def split: response.splits)

lemma handleAnswerChange_same [simp]:
  "quizStatus (handleAnswerChange q a s) = quizStatus s"
  "quizData (handleAnswerChange q a s) = quizData s"
  "currentQuestionIndex (handleAnswerChange q a s) = currentQuestionIndex s"
  "timeRemaining (handleAnswerChange q a s) = timeRemaining s"
  "error (handleAnswerChange q a s) = error s"
  "mounted (handleAnswerChange q a s) = mounted s"
  "interval (handleAnswerChange q a s) = interval s"
  "timer (handleAnswerChange q a s) = timer s"
  "statusRequests (handleAnswerChange q a s) = statusRequests s"
  "statusPending (handleAnswerChange q a s) = statusPending s"
  "quizRequests (handleAnswerChange q a s) = quizRequests s"
  "quizPending (handleAnswerChange q a s) = quizPending s"
  "submitCalls (handleAnswerChange q a s) = submitCalls s"
  "submitPending (handleAnswerChange q a s) = submitPending s"
  "isSubmitting (handleAnswerChange q a s) = isSubmitting s"
  "console (handleAnswerChange q a s) = console s"
  by (simp_all add: handleAnswerChange_def setAnswers_def)

lemma handleNextQuestion_same [simp]:
  "quizStatus (handleNextQuestion qs s) = quizStatus s"
  "quizData (handleNextQuestion qs s) = quizData s"
  "timeRemaining (handleNextQuestion qs s) = timeRemaining s"
  "error (handleNextQuestion qs s) = error s"
  "mounted (handleNextQuestion qs s) = mounted s"
  "interval (handleNextQuestion qs s) = interval s"
  "timer (handleNextQuestion qs s) = timer s"
  "statusRequests (handleNextQuestion qs s) = statusRequests s"
  "statusPending (handleNextQuestion qs s) = statusPending s"
  "quizRequests (handleNextQuestion qs s) = quizRequests s"
  "quizPending (handleNextQuestion qs s) = quizPending s"
  "submitCalls (handleNextQuestion qs s) = submitCalls s"
  "submitPending (handleNextQuestion qs s) = submitPending s"
  "isSubmitting (handleNextQuestion qs s) = isSubmitting s"
  "console (handleNextQuestion qs s) = console s"
  by (simp_all add: handleNextQuestion_def setCurrentQuestionIndex_def)

lemma handlePreviousQuestion_same [simp]:
  "quizStatus (handlePreviousQuestion s) = quizStatus s"
  "quizData (handlePreviousQuestion s) = quizData s"
  "timeRemaining (handlePreviousQuestion s) = timeRemaining s"
  "error (handlePreviousQuestion s) = error s"
  "mounted (handlePreviousQuestion s) = mounted s"
  "interval (handlePreviousQuestion s) = interval s"
  "timer (handlePreviousQuestion s) = timer s"
  "statusRequests (handlePreviousQuestion s) = statusRequests s"
  "statusPending (handlePreviousQuestion s) = statusPending s"
  "quizRequests (handlePreviousQuestion s) = quizRequests s"
  "quizPending (handlePreviousQuestion s) = quizPending s"
  "submitCalls (handlePreviousQuestion s) = submitCalls s"
  "submitPending (handlePreviousQuestion s) = submitPending s"
  "isSubmitting (handlePreviousQuestion s) = isSubmitting s"
  "console (handlePreviousQuestion s) = console s"
  by (simp_all add: handlePreviousQuestion_def setCurrentQuestionIndex_def)

text \<open>What each event's callback is.\<close>

lemma fire_cases:
  assumes "fire s e = Some s'"
  obtains
    (Interval) "e = IntervalFire" "interval s \<noteq> None" "s' = checkQuizStatus s"
  | (Timeout) d v where "e = TimeoutFire" "timer s = Some (d, v)"
      "s' = setTimeRemaining v (s\<lparr>timer := None\<rparr>)"
  | (Status) rid r where "e = StatusResponse rid r" "rid \<in> set (statusPending s)"
      "s' = checkQuizStatus_onStatus r (s\<lparr>statusPending := removeAll rid (statusPending s)\<rparr>)"
  | (Quiz) rid r where "e = QuizResponse rid r" "rid \<in> set (quizPending s)"
      "s' = checkQuizStatus_onQuiz r (s\<lparr>quizPending := removeAll rid (quizPending s)\<rparr>)"
  | (Submit) rid r where "e = SubmitResponse rid r" "rid \<in> set (submitPending s)"
      "s' = handleSubmitQuiz_onResult r (s\<lparr>submitPending := removeAll rid (submitPending s)\<rparr>)"
  | (Answer) a qs where "e = ClickAnswer a" "shown_questions s = Some qs"
      "s' = handleAnswerChange (question_id (qs ! nat (currentQuestionIndex s))) a s"
  | (ClickNext) qs where "e = ClickNext" "shown_questions s = Some qs"
      "s' = handleNextQuestion qs s"
  | (ClickPrevious) "e = ClickPrevious" "shown_questions s \<noteq> None"
      "s' = handlePreviousQuestion s"
  | (ClickSubmit) qs where "e = ClickSubmit" "shown_questions s = Some qs"
      "isLastQuestion qs s" "\<not> isSubmitting s" "s' = handleSubmitQuiz s"
  | (Unmount) "e = Unmount" "mounted s" "s' = unmount s"
  using assms by (cases e) (auto split: option.splits if_splits prod.splits)

lemma fire_unmounted: "fire s e = Some s' \<Longrightarrow> \<not> mounted s \<Longrightarrow> \<not> mounted s'"
  by (erule fire_cases) (simp_all split: response.splits)

lemma fire_timers_ok:
  assumes "fire s e = Some s'" and "timers_ok s"
  shows "timers_ok s'"
  using assms(1)
proof (cases rule: fire_cases)
  case (Quiz rid r)
  then show ?thesis using assms(2)
    by (cases r) (auto simp: timers_ok_def split: option.splits)
next
  case (Submit rid r)
  then show ?thesis using assms(2)
    by (cases r) (auto simp: timers_ok_def split: option.splits)
qed (use assms(2) in \<open>auto simp: timers_ok_def split: option.splits if_splits\<close>)

lemma fire_statusRequests:
  "fire s e = Some s' \<Longrightarrow> statusRequests s' = statusRequests s + (if e = IntervalFire then 1 else 0)"
  by (erule fire_cases) simp_all

section \<open>Steps and runs\<close>

lemma render_cong:
  "quizStatus s' = quizStatus s \<Longrightarrow> error s' = error s \<Longrightarrow> quizData s' = quizData s \<Longrightarrow>
   currentQuestionIndex s' = currentQuestionIndex s \<Longrightarrow> render s' = render s"
  by (simp add: render_def loaded_questions_def loaded_quiz_def split: option.splits)

lemma step_fire: "step s e = Some s' \<Longrightarrow> fire s e = Some s'"
  by (simp add: step_def split: option.splits if_splits)

lemma step_renders: "step s e = Some s' \<Longrightarrow> renders s'"
  by (auto simp: step_def renders_def split: option.splits if_splits)

lemma step_timers_ok: "step s e = Some s' \<Longrightarrow> timers_ok s \<Longrightarrow> timers_ok s'"
  using fire_timers_ok step_fire by blast

lemma step_unmounted: "step s e = Some s' \<Longrightarrow> \<not> mounted s \<Longrightarrow> \<not> mounted s'"
  using fire_unmounted step_fire by blast

lemma run_induct_rule:
  assumes "run s tr = Some s'" and "P s"
    and "\<And>a e b. P a \<Longrightarrow> step a e = Some b \<Longrightarrow> P b"
  shows "P s'"
  using assms(1,2)
proof (induction tr arbitrary: s)
  case Nil
  then show ?case by simp
next
  case (Cons e es)
  from Cons.prems(1) obtain b where b: "step s e = Some b" "run b es = Some s'"
    by (auto split: option.splits)
  from assms(3) [OF Cons.prems(2) b(1)] have "P b" .
  with Cons.IH b(2) show ?case by blast
qed

lemma run_append:
  "run s (xs @ ys) = (case run s xs of None \<Rightarrow> None | Some s' \<Rightarrow> run s' ys)"
  by (induction xs arbitrary: s) (auto split: option.splits)

lemma mount_fields [simp]:
  "mounted (mount sid)" "interval (mount sid) = Some 3000" "timer (mount sid) = None"
  "timeRemaining (mount sid) = None" "statusRequests (mount sid) = 1"
  "statusPending (mount sid) = [0]" "quizRequests (mount sid) = 0"
  "quizStatus (mount sid) = ''loading''" "error (mount sid) = None"
  "submitCalls (mount sid) = []" "quizData (mount sid) = None"
  by (simp_all add: mount_def pollingEffect_def seedEffect_def initial_def checkQuizStatus_def)

lemma mount_timers_ok: "timers_ok (mount sid)"
  by (simp add: timers_ok_def)

lemma mount_renders: "renders (mount sid)"
  by (simp add: renders_def render_def)

lemma run_timers_ok: "run (mount sid) tr = Some s \<Longrightarrow> timers_ok s"
  by (erule run_induct_rule [where P = timers_ok]) (simp_all add: mount_timers_ok step_timers_ok)

lemma run_keeps_timers_ok: "run s tr = Some s' \<Longrightarrow> timers_ok s \<Longrightarrow> timers_ok s'"
  by (erule run_induct_rule [where P = timers_ok]) (simp_all add: step_timers_ok)

lemma run_renders: "run (mount sid) tr = Some s \<Longrightarrow> renders s"
  by (erule run_induct_rule [where P = renders]) (simp_all add: mount_renders step_renders)

lemma run_unmounted: "run s tr = Some s' \<Longrightarrow> \<not> mounted s \<Longrightarrow> \<not> mounted s'"
  by (erule run_induct_rule [where P = "\<lambda>s. \<not> mounted s"]) (simp_all add: step_unmounted)

lemma step_statusRequests:
  "step s e = Some s' \<Longrightarrow>
   statusRequests s' = statusRequests s + (if e = IntervalFire then 1 else 0)"
  using fire_statusRequests step_fire by blast

lemma run_statusRequests:
  "run s tr = Some s' \<Longrightarrow> statusRequests s' = statusRequests s + count_list tr IntervalFire"
proof (induction tr arbitrary: s)
  case Nil
  then show ?case by simp
next
  case (Cons e es)
  from Cons.prems obtain b where b: "step s e = Some b" "run b es = Some s'"
    by (auto split: option.splits)
  from Cons.IH [OF b(2)] step_statusRequests [OF b(1)] show ?case by simp
qed

lemma step_IntervalFire:
  assumes "mounted s" and "timers_ok s" and "renders s"
  shows "step s IntervalFire = Some (checkQuizStatus s)"
proof -
  have "render (checkQuizStatus s) = render s"
    by (rule render_cong) simp_all
  with assms show ?thesis
    by (simp add: step_def timers_ok_def renders_def)
qed

lemma step_TimeoutFire:
  assumes "mounted s" and "timers_ok s" and "renders s"
    and "timeRemaining s = Some (Finite (of_int k))" and "0 < k" and "k \<le> 2 ^ 53"
  shows "timer s = Some (1000, Finite (of_int (k - 1)))"
    and "step s TimeoutFire = Some (setTimeRemaining (Finite (of_int (k - 1))) (s\<lparr>timer := None\<rparr>))"
proof -
  have m1: "js_minus1 (Finite (of_int k)) = Finite (of_int (k - 1))"
    using assms(5,6) by (rule js_minus1_int)
  then have "js_minus1 (Finite (of_int k)) \<noteq> Finite (of_int k)" by simp
  with assms(1,2,4,5) m1 show t: "timer s = Some (1000, Finite (of_int (k - 1)))"
    by (simp add: timers_ok_def)
  have "render (setTimeRemaining (Finite (of_int (k - 1))) (s\<lparr>timer := None\<rparr>)) = render s"
    by (rule render_cong) simp_all
  with assms(1,3) t show
    "step s TimeoutFire = Some (setTimeRemaining (Finite (of_int (k - 1))) (s\<lparr>timer := None\<rparr>))"
    by (simp add: step_def renders_def)
qed

lemma unmounted_timers_off:
  assumes "timers_ok s" and "\<not> mounted s"
  shows "step s IntervalFire = None" and "step s TimeoutFire = None"
  using assms by (simp_all add: step_def timers_ok_def)


section \<open>Polling\<close>

lemma unmounted_no_more_polls:
  assumes "run s tr = Some s'" and "\<not> mounted s" and "timers_ok s"
  shows "statusRequests s' = statusRequests s"
proof -
  have "\<not> mounted s' \<and> timers_ok s' \<and> statusRequests s' = statusRequests s"
  proof (rule run_induct_rule [OF assms(1)])
    show "\<not> mounted s \<and> timers_ok s \<and> statusRequests s = statusRequests s"
      using assms by simp
  next
    fix a e b
    assume a: "\<not> mounted a \<and> timers_ok a \<and> statusRequests a = statusRequests s"
      and st: "step a e = Some b"
    have "e \<noteq> IntervalFire"
      using a st unmounted_timers_off(1) [of a] by auto
    with step_statusRequests [OF st] a step_unmounted [OF st] step_timers_ok [OF st]
    show "\<not> mounted b \<and> timers_ok b \<and> statusRequests b = statusRequests s"
      by simp
  qed
  then show ?thesis by simp
qed

text \<open>
  Claim C5. One status request is sent at mount and one at every firing of the
  interval, which is registered with a period of 3000 ms for as long as the
  component is mounted, and nothing else sends one. Unmounting cancels the
  interval and the countdown timeout: neither can fire any more, and whatever
  happens afterwards no further status request is sent.
\<close>

theorem poll_every_period_until_unmount:
  assumes "run (mount sid) tr = Some s"
  shows "statusRequests s = 1 + count_list tr IntervalFire
    \<and> (mounted s \<longrightarrow>
         interval s = Some 3000
         \<and> (\<exists>s'. step s IntervalFire = Some s' \<and> statusRequests s' = statusRequests s + 1))
    \<and> (\<not> mounted s \<longrightarrow>
         interval s = None \<and> timer s = None
         \<and> step s IntervalFire = None \<and> step s TimeoutFire = None
         \<and> (\<forall>tr' s'. run s tr' = Some s' \<longrightarrow>
               \<not> mounted s' \<and> interval s' = None \<and> timer s' = None
               \<and> statusRequests s' = statusRequests s))"
proof -
  have ok: "timers_ok s" and rs: "renders s"
    using assms by (rule run_timers_ok, rule run_renders)
  have count: "statusRequests s = 1 + count_list tr IntervalFire"
    using run_statusRequests [OF assms] by simp
  have on: "interval s = Some 3000
      \<and> (\<exists>s'. step s IntervalFire = Some s' \<and> statusRequests s' = statusRequests s + 1)"
    if "mounted s"
    using that ok step_IntervalFire [OF that ok rs] by (simp add: timers_ok_def)
  have off: "interval s = None \<and> timer s = None
      \<and> step s IntervalFire = None \<and> step s TimeoutFire = None
      \<and> (\<forall>tr' s'. run s tr' = Some s' \<longrightarrow>
            \<not> mounted s' \<and> interval s' = None \<and> timer s' = None
            \<and> statusRequests s' = statusRequests s)"
    if un: "\<not> mounted s"
  proof -
    have later: "\<not> mounted s' \<and> interval s' = None \<and> timer s' = None
        \<and> statusRequests s' = statusRequests s" if r: "run s tr' = Some s'" for tr' s'
    proof -
      have "\<not> mounted s'" using run_unmounted [OF r un] .
      moreover have "timers_ok s'" using run_keeps_timers_ok [OF r ok] .
      ultimately show ?thesis
        using unmounted_no_more_polls [OF r un ok] by (simp add: timers_ok_def)
    qed
    from un ok have "interval s = None \<and> timer s = None" by (simp add: timers_ok_def)
    with unmounted_timers_off [OF ok un] later show ?thesis by blast
  qed
  from count on off show ?thesis by blast
qed


theorem poll_every_period_until_unmount_witness:
  "\<exists>s. run (mount ''s'')
          [IntervalFire, StatusResponse 0 (example_status ''generating''), IntervalFire, Unmount]
        = Some s
       \<and> statusRequests s = 3 \<and> interval s = None \<and> step s IntervalFire = None"
proof -
  have "map_option mounted
          (run (mount ''s'')
             [IntervalFire, StatusResponse 0 (example_status ''generating''), IntervalFire, Unmount])
        = Some False"
    by code_simp
  then obtain s where s: "run (mount ''s'')
      [IntervalFire, StatusResponse 0 (example_status ''generating''), IntervalFire, Unmount] = Some s"
    and un: "\<not> mounted s"
    by auto
  from poll_every_period_until_unmount [OF s] un
  have "statusRequests s = 3 \<and> interval s = None \<and> step s IntervalFire = None"
    by simp
  with s show ?thesis by blast
qed

lemma fire_quizRequests:
  "fire s e = Some s' \<Longrightarrow>
   quizRequests s' = quizRequests s + (if observes_ready e then 1 else 0)"
proof (erule fire_cases)
  fix rid r
  assume "e = StatusResponse rid r"
    and "s' = checkQuizStatus_onStatus r (s\<lparr>statusPending := removeAll rid (statusPending s)\<rparr>)"
  then show ?thesis
    by (cases r) (simp_all add: observes_ready_def arrived_status_def)
qed (simp_all add: observes_ready_def arrived_status_def)

lemma run_quizRequests:
  "run s tr = Some s' \<Longrightarrow> quizRequests s' = quizRequests s + length (filter observes_ready tr)"
proof (induction tr arbitrary: s)
  case Nil
  then show ?case by simp
next
  case (Cons e es)
  from Cons.prems obtain b where b: "step s e = Some b" "run b es = Some s'"
    by (auto split: option.splits)
  from Cons.IH [OF b(2)] fire_quizRequests [OF step_fire [OF b(1)]] show ?case by simp
qed

text \<open>
  Claim C1, as amended. Every status response that reports \<open>ready\<close> is followed by
  exactly one fetch of the full quiz, and nothing else fetches it. Polling does not
  stop: whatever status has been observed, a mounted component keeps its interval,
  and its next firing sends one more status request.
\<close>

theorem polling_goes_on_after_ready:
  assumes "run (mount sid) tr = Some s" and "mounted s"
  shows "quizRequests s = length (filter observes_ready tr)
    \<and> statusRequests s = 1 + count_list tr IntervalFire
    \<and> interval s = Some 3000
    \<and> (\<exists>s'. step s IntervalFire = Some s' \<and> mounted s' \<and> quizStatus s' = quizStatus s
             \<and> interval s' = Some 3000 \<and> statusRequests s' = statusRequests s + 1)"
proof -
  have ok: "timers_ok s" and rs: "renders s"
    using assms(1) by (rule run_timers_ok, rule run_renders)
  have "quizRequests s = length (filter observes_ready tr)"
    using run_quizRequests [OF assms(1)] by simp
  moreover have "statusRequests s = 1 + count_list tr IntervalFire"
    using run_statusRequests [OF assms(1)] by simp
  moreover have "interval s = Some 3000"
    using ok assms(2) by (simp add: timers_ok_def)
  ultimately show ?thesis
    using step_IntervalFire [OF assms(2) ok rs] assms(2) by simp
qed

theorem polling_goes_on_after_ready_witness:
  "\<exists>s s'. run (mount ''s'')
             [StatusResponse 0 (example_status ''ready''),
              QuizResponse 0 (Resolved (example_quiz (Some 1) [example_question ''q1'']))]
           = Some s
         \<and> quizStatus s = ''ready'' \<and> quizRequests s = 1
         \<and> step s IntervalFire = Some s' \<and> statusRequests s' = 2"
proof -
  have "map_option (\<lambda>s. (mounted s, quizStatus s))
          (run (mount ''s'')
             [StatusResponse 0 (example_status ''ready''),
              QuizResponse 0 (Resolved (example_quiz (Some 1) [example_question ''q1'']))])
        = Some (True, ''ready'')"
    by code_simp
  then obtain s where s: "run (mount ''s'')
      [StatusResponse 0 (example_status ''ready''),
       QuizResponse 0 (Resolved (example_quiz (Some 1) [example_question ''q1'']))] = Some s"
    and m: "mounted s" and r: "quizStatus s = ''ready''"
    by auto
  from polling_goes_on_after_ready [OF s m] r
  have "quizRequests s = 1 \<and> (\<exists>s'. step s IntervalFire = Some s' \<and> statusRequests s' = 2)"
    by (auto simp: observes_ready_def arrived_status_def example_status_def)
  with s r show ?thesis by blast
qed

text \<open>
  Claim C1 as stated fails. After \<open>ready\<close> has been observed and the quiz fetched,
  the next firing of the interval sends a second status request, and its \<open>ready\<close>
  response a second fetch of the quiz; a \<open>failed\<close> or \<open>completed\<close> status does not
  stop the polling either.
\<close>

theorem polling_stops_at_ready_counterexample:
  "map_option quizStatus
     (run (mount ''s'')
        [StatusResponse 0 (example_status ''ready''),
         QuizResponse 0 (Resolved (example_quiz (Some 1) [example_question ''q1'']))])
     = Some ''ready''
   \<and> map_option statusRequests
       (run (mount ''s'')
          [StatusResponse 0 (example_status ''ready''),
           QuizResponse 0 (Resolved (example_quiz (Some 1) [example_question ''q1''])),
           IntervalFire,
           StatusResponse 1 (example_status ''ready'')])
     = Some 2
   \<and> map_option quizRequests
       (run (mount ''s'')
          [StatusResponse 0 (example_status ''ready''),
           QuizResponse 0 (Resolved (example_quiz (Some 1) [example_question ''q1''])),
           IntervalFire,
           StatusResponse 1 (example_status ''ready'')])
     = Some 2
   \<and> map_option mounted
       (run (mount ''s'')
          [StatusResponse 0 (example_status ''ready''),
           QuizResponse 0 (Resolved (example_quiz (Some 1) [example_question ''q1''])),
           IntervalFire,
           StatusResponse 1 (example_status ''ready'')])
     = Some True
   \<and> map_option statusRequests
       (run (mount ''s'') [StatusResponse 0 (example_status ''failed''), IntervalFire])
     = Some 2
   \<and> map_option statusRequests
       (run (mount ''s'') [StatusResponse 0 (example_status ''completed''), IntervalFire])
     = Some 2"
  by code_simp


section \<open>Out-of-order responses\<close>

lemma fire_quizStatus:
  assumes "fire s e = Some s'" and "mounted s'"
  shows "quizStatus s' = (case arrived_status e of None \<Rightarrow> quizStatus s | Some st \<Rightarrow> st)"
proof -
  have m: "mounted s" using fire_unmounted [OF assms(1)] assms(2) by blast
  from assms(1) show ?thesis
  proof (cases rule: fire_cases)
    case (Status rid r)
    then show ?thesis using m by (cases r) (simp_all add: arrived_status_def)
  qed (simp_all add: arrived_status_def)
qed

lemma run_quizStatus:
  "run s tr = Some s' \<Longrightarrow> mounted s' \<Longrightarrow> quizStatus s' = last_arrived (quizStatus s) tr"
proof (induction tr arbitrary: s)
  case Nil
  then show ?case by simp
next
  case (Cons e es)
  from Cons.prems(1) obtain b where b: "step s e = Some b" "run b es = Some s'"
    by (auto split: option.splits)
  have "mounted b" using run_unmounted [OF b(2)] Cons.prems(2) by blast
  from fire_quizStatus [OF step_fire [OF b(1)] this] Cons.IH [OF b(2) Cons.prems(2)]
  show ?case by simp
qed

text \<open>
  Claim C2, as amended. No status response is discarded: the status on display is
  that of the successful status response that arrived last, whatever the order in
  which the requests were sent, and the response to any request still in flight
  replaces the status on display when it arrives.
\<close>

theorem last_arrival_is_displayed:
  assumes "run (mount sid) tr = Some s" and "mounted s"
  shows "quizStatus s = last_arrived ''loading'' tr
    \<and> (step s (StatusResponse rid (Resolved d)) = Some s' \<longrightarrow> quizStatus s' = status d)"
proof -
  have "quizStatus s = last_arrived ''loading'' tr"
    using run_quizStatus [OF assms] by simp
  moreover have "quizStatus s' = status d" if st: "step s (StatusResponse rid (Resolved d)) = Some s'"
  proof -
    from step_fire [OF st] have "mounted s'"
      using assms(2) by (auto split: if_splits)
    from fire_quizStatus [OF step_fire [OF st] this] show ?thesis
      by (simp add: arrived_status_def)
  qed
  ultimately show ?thesis by blast
qed

theorem last_arrival_is_displayed_witness:
  "\<exists>s s'. run (mount ''s'') [IntervalFire, StatusResponse 1 (example_status ''ready'')] = Some s
     \<and> quizStatus s = ''ready''
     \<and> step s (StatusResponse 0 (Resolved \<lparr>status = ''generating'', error_message = None\<rparr>)) = Some s'
     \<and> quizStatus s' = ''generating''"
proof -
  have "map_option (\<lambda>s. (mounted s,
            map_option mounted
              (step s (StatusResponse 0 (Resolved \<lparr>status = ''generating'', error_message = None\<rparr>)))))
          (run (mount ''s'') [IntervalFire, StatusResponse 1 (example_status ''ready'')])
        = Some (True, Some True)"
    by code_simp
  then obtain s s' where s: "run (mount ''s'') [IntervalFire, StatusResponse 1 (example_status ''ready'')] = Some s"
    and m: "mounted s"
    and s': "step s (StatusResponse 0 (Resolved \<lparr>status = ''generating'', error_message = None\<rparr>)) = Some s'"
    by auto
  from last_arrival_is_displayed [OF s m, of 0 "\<lparr>status = ''generating'', error_message = None\<rparr>" s'] s'
  have "quizStatus s = ''ready'' \<and> quizStatus s' = ''generating''"
    by (simp add: arrived_status_def example_status_def)
  with s s' show ?thesis by blast
qed

text \<open>
  Claim C2 as stated fails. Request 0 is sent at mount and request 1 at the first
  firing of the interval. The response to request 1 arrives first and \<open>ready\<close> is on
  display; then the response to request 0 arrives, is not discarded, and the status
  on display goes back to \<open>generating\<close>.
\<close>

theorem stale_response_discarded_counterexample:
  "map_option quizStatus
     (run (mount ''s'') [IntervalFire, StatusResponse 1 (example_status ''ready'')])
     = Some ''ready''
   \<and> map_option quizStatus
       (run (mount ''s'')
          [IntervalFire, StatusResponse 1 (example_status ''ready''),
           StatusResponse 0 (example_status ''generating'')])
     = Some ''generating''
   \<and> map_option render
       (run (mount ''s'')
          [IntervalFire, StatusResponse 1 (example_status ''ready''),
           StatusResponse 0 (example_status ''generating'')])
     = Some GeneratingScreen"
  by code_simp

section \<open>Failed polls\<close>

lemma truthy_Cons [simp]: "truthy (Some (a # as))"
  by (simp add: truthy_def)

lemma fire_error_stays:
  assumes "fire s e = Some s'" and "truthy (error s)"
  shows "truthy (error s')"
  using assms(1)
proof (cases rule: fire_cases)
  case (Status rid r)
  then show ?thesis using assms(2) by (cases r) simp_all
next
  case (Quiz rid r)
  then show ?thesis using assms(2) by (cases r) simp_all
qed (use assms(2) in simp_all)

lemma run_error_stays: "run s tr = Some s' \<Longrightarrow> truthy (error s) \<Longrightarrow> truthy (error s')"
  by (erule run_induct_rule [where P = "\<lambda>s. truthy (error s)"])
     (auto dest: step_fire fire_error_stays)

lemma render_error:
  assumes "truthy (error s)"
  shows "render s \<noteq> RenderThrows"
    and "quizStatus s \<noteq> ''loading'' \<Longrightarrow> quizStatus s \<noteq> ''generating'' \<Longrightarrow>
         render s = ErrorScreen (or_string (error s) ''Quiz generation failed.'')"
  using assms by (simp_all add: render_def)

text \<open>
  Claim C7, as amended. A status request that fails is logged and its message is
  stored in \<open>error\<close>; polling goes on, the interval stays registered and its next
  firing sends a new request. The stored error is never cleared: from then on,
  whatever happens, \<open>error\<close> stays set, and as soon as the status is neither
  \<open>loading\<close> nor \<open>generating\<close> the component renders the error screen with it.
\<close>

theorem failed_poll_is_stored_and_polling_goes_on:
  assumes "run (mount sid) tr = Some s" and "mounted s" and "rid \<in> set (statusPending s)"
  shows "\<exists>s'. step s (StatusResponse rid (Rejected e)) = Some s'
      \<and> console s' = console s @ [LogError ''Error checking quiz status:'']
      \<and> error s' = Some (''Failed to load quiz: '' @ or_string (detail e) (message e))
      \<and> mounted s' \<and> interval s' = Some 3000
      \<and> (\<exists>s''. step s' IntervalFire = Some s'' \<and> statusRequests s'' = statusRequests s' + 1)
      \<and> (\<forall>tr2 s2. run s' tr2 = Some s2 \<longrightarrow>
            truthy (error s2)
            \<and> (mounted s2 \<and> quizStatus s2 \<noteq> ''loading'' \<and> quizStatus s2 \<noteq> ''generating'' \<longrightarrow>
                 render s2 = ErrorScreen (or_string (error s2) ''Quiz generation failed.'')))"
proof -
  define s' where
    "s' = checkQuizStatus_catch e (s\<lparr>statusPending := removeAll rid (statusPending s)\<rparr>)"
  have ok: "timers_ok s" using assms(1) by (rule run_timers_ok)
  have err: "error s' = Some (''Failed to load quiz: '' @ or_string (detail e) (message e))"
    and m: "mounted s'" and con: "console s' = console s @ [LogError ''Error checking quiz status:'']"
    using assms(2) by (simp_all add: s'_def)
  have t: "truthy (error s')" by (simp add: err)
  have st: "step s (StatusResponse rid (Rejected e)) = Some s'"
    using assms(3) render_error(1) [OF t] by (simp add: step_def s'_def)
  have ok': "timers_ok s'" using step_timers_ok [OF st ok] .
  have rs': "renders s'" using step_renders [OF st] .
  have iv: "interval s' = Some 3000" using ok' m by (simp add: timers_ok_def)
  have next_poll: "\<exists>s''. step s' IntervalFire = Some s'' \<and> statusRequests s'' = statusRequests s' + 1"
    using step_IntervalFire [OF m ok' rs'] by simp
  have later: "truthy (error s2)
      \<and> (mounted s2 \<and> quizStatus s2 \<noteq> ''loading'' \<and> quizStatus s2 \<noteq> ''generating'' \<longrightarrow>
           render s2 = ErrorScreen (or_string (error s2) ''Quiz generation failed.''))"
    if r: "run s' tr2 = Some s2" for tr2 s2
    using run_error_stays [OF r t] render_error(2) [of s2] by blast
  from st con err m iv next_poll later show ?thesis by blast
qed

theorem failed_poll_is_stored_and_polling_goes_on_witness:
  "\<exists>s'. step (mount ''s'') (StatusResponse 0 (Rejected (ReqError None ''Network Error''))) = Some s'
     \<and> error s' = Some ''Failed to load quiz: Network Error''
     \<and> interval s' = Some 3000"
proof -
  have r: "run (mount ''s'') [] = Some (mount ''s'')" by simp
  from failed_poll_is_stored_and_polling_goes_on
         [OF r, of 0 "ReqError None ''Network Error''"]
  show ?thesis by (auto simp: or_string_def)
qed

text \<open>
  Claim C7 as stated fails. One status request fails; the next poll succeeds with
  \<open>ready\<close> and the quiz is fetched, but the component shows the error screen with
  the message of the failed request although the status is not \<open>failed\<close>.
\<close>

theorem failed_poll_not_rendered_counterexample:
  "map_option quizStatus
     (run (mount ''s'')
        [StatusResponse 0 (Rejected (ReqError None ''Network Error'')),
         IntervalFire,
         StatusResponse 1 (example_status ''ready''),
         QuizResponse 0 (Resolved (example_quiz (Some 1) [example_question ''q1'']))])
     = Some ''ready''
   \<and> map_option render
       (run (mount ''s'')
          [StatusResponse 0 (Rejected (ReqError None ''Network Error'')),
           IntervalFire,
           StatusResponse 1 (example_status ''ready''),
           QuizResponse 0 (Resolved (example_quiz (Some 1) [example_question ''q1'']))])
     = Some (ErrorScreen ''Failed to load quiz: Network Error'')"
  by code_simp

section \<open>The countdown\<close>

lemma fire_timeRemaining:
  assumes "fire s e = Some s'" and "mounted s'" and "\<not> delivers_quiz e"
  shows "timeRemaining s' =
           (if e = TimeoutFire then map_option snd (timer s) else timeRemaining s)"
proof -
  have m: "mounted s" using fire_unmounted [OF assms(1)] assms(2) by blast
  from assms(1) show ?thesis
  proof (cases rule: fire_cases)
    case (Quiz rid r)
    then show ?thesis using assms(3) by (cases r) (simp_all add: delivers_quiz_def)
  qed (use m in simp_all)
qed

lemma countdown_stretch:
  assumes "run s tr = Some s'" and "mounted s'" and "timers_ok s"
    and "timeRemaining s = Some (Finite (of_int k))" and "0 \<le> k" and "k \<le> 2 ^ 53"
    and "\<forall>e \<in> set tr. \<not> delivers_quiz e"
  shows "int (count_list tr TimeoutFire) \<le> k
    \<and> timeRemaining s' = Some (Finite (of_int (k - int (count_list tr TimeoutFire))))"
  using assms
proof (induction tr arbitrary: s k)
  case Nil
  then show ?case by simp
next
  case (Cons e es)
  from Cons.prems(1) obtain b where b: "step s e = Some b" "run b es = Some s'"
    by (auto split: option.splits)
  have mb: "mounted b" using run_unmounted [OF b(2)] Cons.prems(2) by blast
  have ms: "mounted s" using step_unmounted [OF b(1)] mb by blast
  have okb: "timers_ok b" using step_timers_ok [OF b(1) Cons.prems(3)] .
  have nq: "\<not> delivers_quiz e" and nqs: "\<forall>e \<in> set es. \<not> delivers_quiz e"
    using Cons.prems(7) by simp_all
  note tr = fire_timeRemaining [OF step_fire [OF b(1)] mb nq]
  show ?case
  proof (cases "e = TimeoutFire")
    case False
    with tr Cons.prems(4) have "timeRemaining b = Some (Finite (of_int k))" by simp
    from Cons.IH [OF b(2) Cons.prems(2) okb this Cons.prems(5,6) nqs] False
    show ?thesis by simp
  next
    case True
    with step_fire [OF b(1)] obtain d v where t: "timer s = Some (d, v)"
      by (auto split: option.splits)
    with Cons.prems(3,4) ms have pos: "0 < k" and v: "v = js_minus1 (Finite (of_int k))"
      by (auto simp: timers_ok_def split: if_splits)
    from v js_minus1_int [OF pos Cons.prems(6)] have "v = Finite (of_int (k - 1))" by simp
    with tr True t have "timeRemaining b = Some (Finite (of_int (k - 1)))" by simp
    from Cons.IH [OF b(2) Cons.prems(2) okb this _ _ nqs] pos Cons.prems(6) True
    show ?thesis by simp
  qed
qed

text \<open>
  Claim C4, as amended. For every quiz whose metadata becomes known to a mounted
  component that has no countdown yet, the countdown is seeded with
  \<open>estimated_time_minutes * 60\<close> seconds, with 20 minutes when the metadata has no
  \<open>estimated_time_minutes\<close> or gives 0; the product is the exact one whenever it is a
  whole number of at most \<open>2 ^ 53\<close>. A countdown of a whole number of seconds, above
  zero and at most \<open>2 ^ 53\<close>, has a timeout of 1000 ms pending whose firing lowers it
  by exactly one; and over any sequence of events in which no further quiz response
  arrives and the component stays mounted, it has gone down by exactly one for each
  firing of that timeout, whatever polls, status responses and clicks fall in between.
\<close>

theorem countdown_seed_and_decrement:
  assumes "run (mount sid) tr = Some s" and "mounted s"
  shows "(timeRemaining s = None \<and> quiz d = Some q \<and> quiz_metadata q = Some m
          \<and> (estimated_time_minutes m = None \<or> estimated_time_minutes m = Some (Finite 0))
          \<and> step s (QuizResponse rid (Resolved d)) = Some s' \<longrightarrow>
            timeRemaining s' = Some (Finite (20 * 60)))
    \<and> (timeRemaining s = None \<and> quiz d = Some q \<and> quiz_metadata q = Some m
          \<and> estimated_time_minutes m = Some (Finite r) \<and> r \<noteq> 0
          \<and> r * 60 = of_int n \<and> \<bar>n\<bar> \<le> 2 ^ 53
          \<and> step s (QuizResponse rid (Resolved d)) = Some s' \<longrightarrow>
            timeRemaining s' = Some (Finite (r * 60)))
    \<and> (timeRemaining s = Some (Finite (of_int k)) \<and> 0 < k \<and> k \<le> 2 ^ 53 \<longrightarrow>
          timer s = Some (1000, Finite (of_int (k - 1)))
          \<and> (\<exists>s''. step s TimeoutFire = Some s'' \<and> mounted s''
                \<and> timeRemaining s'' = Some (Finite (of_int (k - 1))))
          \<and> (\<forall>tr2 s2. run s tr2 = Some s2 \<and> mounted s2
                  \<and> (\<forall>e \<in> set tr2. \<not> delivers_quiz e) \<longrightarrow>
                int (count_list tr2 TimeoutFire) \<le> k
                \<and> timeRemaining s2 =
                    Some (Finite (of_int (k - int (count_list tr2 TimeoutFire))))))"
proof -
  have ok: "timers_ok s" and rs: "renders s"
    using assms(1) by (rule run_timers_ok, rule run_renders)
  have arrive: "timeRemaining s' = seed_value d"
    if "seed_value d \<noteq> None" and st: "step s (QuizResponse rid (Resolved d)) = Some s'"
    for d rid s'
    using step_fire [OF st] assms(2) that(1) by (auto split: if_splits)
  have seed_default: "timeRemaining s' = Some (Finite (20 * 60))"
    if d: "quiz d = Some q" "quiz_metadata q = Some m"
      and e: "estimated_time_minutes m = None \<or> estimated_time_minutes m = Some (Finite 0)"
      and st: "step s (QuizResponse rid (Resolved d)) = Some s'"
  proof -
    have "or_number (estimated_time_minutes m) (Finite 20) = Finite (of_int 20)"
      using e by (auto simp: or_number_def js_is_zero_iff)
    then have "seed_value d = Some (Finite (20 * 60))"
      using d js_times60_int [of 20] by (simp add: seed_value_def)
    with arrive [OF _ st] show ?thesis by simp
  qed
  have seed_given: "timeRemaining s' = Some (Finite (r * 60))"
    if d: "quiz d = Some q" "quiz_metadata q = Some m"
      and e: "estimated_time_minutes m = Some (Finite r)" "r \<noteq> 0"
      and n: "r * 60 = of_int n" "\<bar>n\<bar> \<le> 2 ^ 53"
      and st: "step s (QuizResponse rid (Resolved d)) = Some s'"
  proof -
    have "or_number (estimated_time_minutes m) (Finite 20) = Finite r"
      using e by (simp add: or_number_def js_is_zero_iff)
    moreover have "fl (r * 60) = Finite (r * 60)"
      using fl_int [OF n(2)] n(1) by simp
    ultimately have "seed_value d = Some (Finite (r * 60))"
      using d by (simp add: seed_value_def js_times60_def)
    with arrive [OF _ st] show ?thesis by simp
  qed
  have dec: "timer s = Some (1000, Finite (of_int (k - 1)))
      \<and> (\<exists>s''. step s TimeoutFire = Some s'' \<and> mounted s''
            \<and> timeRemaining s'' = Some (Finite (of_int (k - 1))))
      \<and> (\<forall>tr2 s2. run s tr2 = Some s2 \<and> mounted s2
              \<and> (\<forall>e \<in> set tr2. \<not> delivers_quiz e) \<longrightarrow>
            int (count_list tr2 TimeoutFire) \<le> k
            \<and> timeRemaining s2 = Some (Finite (of_int (k - int (count_list tr2 TimeoutFire)))))"
    if t: "timeRemaining s = Some (Finite (of_int k))" "0 < k" "k \<le> 2 ^ 53"
  proof -
    note fire1 = step_TimeoutFire [OF assms(2) ok rs t]
    have "\<exists>s''. step s TimeoutFire = Some s'' \<and> mounted s''
            \<and> timeRemaining s'' = Some (Finite (of_int (k - 1)))"
      using fire1(2) assms(2) by simp
    moreover have "int (count_list tr2 TimeoutFire) \<le> k
            \<and> timeRemaining s2 = Some (Finite (of_int (k - int (count_list tr2 TimeoutFire))))"
      if "run s tr2 = Some s2" "mounted s2" "\<forall>e \<in> set tr2. \<not> delivers_quiz e" for tr2 s2
      using countdown_stretch [OF that(1,2) ok t(1) _ t(3) that(3)] t(2) by simp
    ultimately show ?thesis using fire1(1) by blast
  qed
  from seed_default seed_given dec show ?thesis by blast
qed


theorem countdown_seed_and_decrement_witness:
  "\<exists>s s' s2.
      run (mount ''s'') [StatusResponse 0 (example_status ''ready'')] = Some s
    \<and> step s (QuizResponse 0 (Resolved (example_quiz None [example_question ''q1'']))) = Some s'
    \<and> timeRemaining s' = Some (Finite 1200)
    \<and> run s' [TimeoutFire, IntervalFire, TimeoutFire] = Some s2
    \<and> timeRemaining s2 = Some (Finite 1198)"
proof -
  let ?A = "StatusResponse 0 (example_status ''ready'')"
  let ?d = "example_quiz None [example_question ''q1'']"
  let ?B = "QuizResponse 0 (Resolved ?d)"
  have "map_option mounted (run (mount ''s'') [?A, ?B, TimeoutFire, IntervalFire, TimeoutFire])
          = Some True"
    by code_simp
  then obtain s2 where r2: "run (mount ''s'') [?A, ?B, TimeoutFire, IntervalFire, TimeoutFire] = Some s2"
    and m2: "mounted s2"
    by auto
  from r2 obtain s s' where r: "run (mount ''s'') [?A] = Some s"
    and st: "step s ?B = Some s'"
    and r': "run s' [TimeoutFire, IntervalFire, TimeoutFire] = Some s2"
    by (auto split: option.splits)
  have m': "mounted s'" using run_unmounted [OF r'] m2 by blast
  have m: "mounted s" using step_unmounted [OF st] m' by blast
  have "map_option timeRemaining (run (mount ''s'') [?A]) = Some None"
    by code_simp
  with r have none: "timeRemaining s = None" by simp
  from countdown_seed_and_decrement
         [OF r m, THEN conjunct1,
          of ?d "example_payload None [example_question ''q1'']" "example_metadata None" 0 s']
       none st
  have seed: "timeRemaining s' = Some (Finite 1200)"
    by (simp add: example_quiz_def example_payload_def example_metadata_def)
  have r1: "run (mount ''s'') [?A, ?B] = Some s'"
    using r st by (auto split: option.splits)
  have k: "timeRemaining s' = Some (Finite (of_int 1200)) \<and> (0::int) < 1200 \<and> (1200::int) \<le> 2 ^ 53"
    using seed by simp
  have pre: "run s' [TimeoutFire, IntervalFire, TimeoutFire] = Some s2 \<and> mounted s2
      \<and> (\<forall>e \<in> set [TimeoutFire, IntervalFire, TimeoutFire]. \<not> delivers_quiz e)"
    using r' m2 by (simp add: delivers_quiz_def)
  from countdown_seed_and_decrement
         [OF r1 m', THEN conjunct2, THEN conjunct2, THEN mp, OF k, THEN conjunct2, THEN conjunct2,
          THEN spec, THEN spec, THEN mp, OF pre]
  have "timeRemaining s2 = Some (Finite 1198)"
    by simp
  with r st seed r' show ?thesis by blast
qed


lemma polling_rounds_events:
  "set (polling_rounds n) \<subseteq> {TimeoutFire, IntervalFire}"
  "count_list (polling_rounds n) TimeoutFire = 3 * n"
  by (induction n) simp_all

lemma countdown_with_polls:
  assumes "run_ok s" and "timeRemaining s = Some (Finite (of_int (int n)))" and "int n \<le> 2 ^ 53"
    and "set tr \<subseteq> {TimeoutFire, IntervalFire}" and "count_list tr TimeoutFire = n"
  shows "\<exists>s'. run s tr = Some s' \<and> run_ok s' \<and> timeRemaining s' = Some (Finite 0)
      \<and> timer s' = None
      \<and> answers s' = answers s
      \<and> submitCalls s' = (if n = 0 then submitCalls s else submitCalls s @ [answers s])
      \<and> submitPending s' =
          (if n = 0 then submitPending s else submitPending s @ [length (submitCalls s)])"
  using assms
proof (induction tr arbitrary: s n)
  case Nil
  then show ?case by (auto simp: run_ok_def timers_ok_def)
next
  case (Cons e es)
  have ok: "mounted s" "timers_ok s" "renders s"
    using Cons.prems(1) by (simp_all add: run_ok_def)
  from Cons.prems(4) consider "e = TimeoutFire" | "e = IntervalFire" by auto
  then show ?case
  proof cases
    case 2
    let ?s1 = "checkQuizStatus s"
    have st: "step s e = Some ?s1" using step_IntervalFire [OF ok] 2 by simp
    have ok1: "run_ok ?s1"
      using step_timers_ok [OF st ok(2)] step_renders [OF st] ok(1) by (simp add: run_ok_def)
    have "\<exists>s'. run ?s1 es = Some s' \<and> run_ok s' \<and> timeRemaining s' = Some (Finite 0)
        \<and> timer s' = None
        \<and> answers s' = answers ?s1
        \<and> submitCalls s' = (if n = 0 then submitCalls ?s1 else submitCalls ?s1 @ [answers ?s1])
        \<and> submitPending s' =
            (if n = 0 then submitPending ?s1 else submitPending ?s1 @ [length (submitCalls ?s1)])"
      using Cons.prems 2 by (intro Cons.IH [OF ok1]) simp_all
    then show ?thesis using st by (auto simp: checkQuizStatus_def)
  next
    case 1
    with Cons.prems(5) obtain k where n: "n = Suc k" and k: "count_list es TimeoutFire = k"
      by auto
    have km: "int n - 1 = int k" using n by simp
    let ?s1 = "setTimeRemaining (Finite (of_int (int k))) (s\<lparr>timer := None\<rparr>)"
    have st: "step s e = Some ?s1"
      using step_TimeoutFire(2) [OF ok Cons.prems(2) _ Cons.prems(3)] 1 n km by simp
    have ok1: "run_ok ?s1"
      using step_timers_ok [OF st ok(2)] step_renders [OF st] ok(1) by (simp add: run_ok_def)
    have tr1: "timeRemaining ?s1 = Some (Finite (of_int (int k)))" using ok(1) by simp
    have kb: "int k \<le> 2 ^ 53" using Cons.prems(3) n by simp
    have "\<exists>s'. run ?s1 es = Some s' \<and> run_ok s' \<and> timeRemaining s' = Some (Finite 0)
        \<and> timer s' = None
        \<and> answers s' = answers ?s1
        \<and> submitCalls s' = (if k = 0 then submitCalls ?s1 else submitCalls ?s1 @ [answers ?s1])
        \<and> submitPending s' =
            (if k = 0 then submitPending ?s1 else submitPending ?s1 @ [length (submitCalls ?s1)])"
      using Cons.prems(4) k by (intro Cons.IH [OF ok1 tr1 kb]) simp_all
    then obtain s' where s': "run ?s1 es = Some s'" "run_ok s'" "timeRemaining s' = Some (Finite 0)"
      "timer s' = None"
      "answers s' = answers ?s1"
      "submitCalls s' = (if k = 0 then submitCalls ?s1 else submitCalls ?s1 @ [answers ?s1])"
      "submitPending s' =
         (if k = 0 then submitPending ?s1 else submitPending ?s1 @ [length (submitCalls ?s1)])"
      by blast
    have "run s (e # es) = Some s'" using st s'(1) by simp
    moreover have "answers s' = answers s" using s'(5) by simp
    moreover have "submitCalls s' = submitCalls s @ [answers s]"
      using s'(6) ok(1) Cons.prems(2) n by (cases "k = 0") simp_all
    moreover have "submitPending s' = submitPending s @ [length (submitCalls s)]"
      using s'(7) ok(1) Cons.prems(2) n by (cases "k = 0") simp_all
    ultimately show ?thesis using s'(2,3,4) n by auto
  qed
qed


text \<open>
  Claim C4 as stated fails.
  \<^item> Metadata with \<open>estimated_time_minutes = 0\<close> does not omit the field, yet the
    countdown is seeded with 1200 seconds, not with \<open>0 * 60\<close>.
  \<^item> A countdown is not lowered every second for as long as the component is
    mounted: at zero (here after the sixty seconds of a one-minute quiz) no timeout
    is pending any more.
  \<^item> With 150119987579017 minutes the seed is 9007199254741020, above \<open>2 ^ 53\<close>:
    the timeout fires, \<open>timeRemaining - 1\<close> rounds back to the same number, and the
    countdown stands still with no timeout pending.
  \<^item> With \<open>2 ^ - 60\<close> minutes the seed is \<open>60 / 2 ^ 60\<close> and the firing of the timeout
    leaves \<open>- 1\<close>, which is not one less.
  \<^item> The countdown of a one-minute quiz is at 58 after two seconds; the next poll
    that reports \<open>ready\<close> fetches the quiz again and the countdown is back at 60.
\<close>

theorem countdown_seed_counterexample:
  "map_option timeRemaining
     (run (mount ''s'')
        [StatusResponse 0 (example_status ''ready''),
         QuizResponse 0 (Resolved (example_quiz (Some 0) [example_question ''q1'']))])
     = Some (Some (Finite 1200))
   \<and> map_option timeRemaining
       (run (mount ''s'')
          ([StatusResponse 0 (example_status ''ready''),
            QuizResponse 0 (Resolved (example_quiz (Some 1) [example_question ''q1'']))]
           @ polling_rounds 20))
     = Some (Some (Finite 0))
   \<and> map_option timer
       (run (mount ''s'')
          ([StatusResponse 0 (example_status ''ready''),
            QuizResponse 0 (Resolved (example_quiz (Some 1) [example_question ''q1'']))]
           @ polling_rounds 20))
     = Some None
   \<and> map_option mounted
       (run (mount ''s'')
          ([StatusResponse 0 (example_status ''ready''),
            QuizResponse 0 (Resolved (example_quiz (Some 1) [example_question ''q1'']))]
           @ polling_rounds 20))
     = Some True
   \<and> map_option timeRemaining
       (run (mount ''s'')
          [StatusResponse 0 (example_status ''ready''),
           QuizResponse 0
             (Resolved (example_quiz (Some 150119987579017) [example_question ''q1'']))])
     = Some (Some (Finite 9007199254741020))
   \<and> map_option timeRemaining
       (run (mount ''s'')
          [StatusResponse 0 (example_status ''ready''),
           QuizResponse 0
             (Resolved (example_quiz (Some 150119987579017) [example_question ''q1''])),
           TimeoutFire])
     = Some (Some (Finite 9007199254741020))
   \<and> map_option timer
       (run (mount ''s'')
          [StatusResponse 0 (example_status ''ready''),
           QuizResponse 0
             (Resolved (example_quiz (Some 150119987579017) [example_question ''q1''])),
           TimeoutFire])
     = Some None
   \<and> map_option timeRemaining
       (run (mount ''s'')
          [StatusResponse 0 (example_status ''ready''),
           QuizResponse 0
             (Resolved (example_quiz_of (Finite (1 / 2 ^ 60)) [example_question ''q1'']))])
     = Some (Some (Finite (60 / 2 ^ 60)))
   \<and> map_option timeRemaining
       (run (mount ''s'')
          [StatusResponse 0 (example_status ''ready''),
           QuizResponse 0
             (Resolved (example_quiz_of (Finite (1 / 2 ^ 60)) [example_question ''q1''])),
           TimeoutFire])
     = Some (Some (Finite (- 1)))
   \<and> map_option timeRemaining
       (run (mount ''s'')
          [StatusResponse 0 (example_status ''ready''),
           QuizResponse 0 (Resolved (example_quiz (Some 1) [example_question ''q1''])),
           TimeoutFire, TimeoutFire])
     = Some (Some (Finite 58))
   \<and> map_option timeRemaining
       (run (mount ''s'')
          [StatusResponse 0 (example_status ''ready''),
           QuizResponse 0 (Resolved (example_quiz (Some 1) [example_question ''q1''])),
           TimeoutFire, TimeoutFire, IntervalFire,
           StatusResponse 1 (example_status ''ready''),
           QuizResponse 1 (Resolved (example_quiz (Some 1) [example_question ''q1'']))])
     = Some (Some (Finite 60))"
proof -
  let ?A = "StatusResponse 0 (example_status ''ready'')"
  let ?one = "QuizResponse 0 (Resolved (example_quiz (Some 1) [example_question ''q1'']))"
  let ?big = "QuizResponse 0
                (Resolved (example_quiz (Some 150119987579017) [example_question ''q1'']))"
  let ?tiny = "QuizResponse 0
                 (Resolved (example_quiz_of (Finite (1 / 2 ^ 60)) [example_question ''q1'']))"
  have zero: "map_option timeRemaining
      (run (mount ''s'')
         [?A, QuizResponse 0 (Resolved (example_quiz (Some 0) [example_question ''q1'']))])
      = Some (Some (Finite 1200))"
    by code_simp
  have "map_option (\<lambda>s. (mounted s, timeRemaining s)) (run (mount ''s'') [?A, ?one])
          = Some (True, Some (Finite 60))"
    by code_simp
  then obtain s where s: "run (mount ''s'') [?A, ?one] = Some s"
    and f: "mounted s" "timeRemaining s = Some (Finite 60)"
    by auto
  have ok: "run_ok s"
    using run_timers_ok [OF s] run_renders [OF s] f(1) by (simp add: run_ok_def)
  from countdown_with_polls [OF ok, of 60 "polling_rounds 20"] f(2) polling_rounds_events [of 20]
  obtain s' where s': "run s (polling_rounds 20) = Some s'" "run_ok s'"
    "timeRemaining s' = Some (Finite 0)" "timer s' = None"
    by auto
  have end_run: "run (mount ''s'') ([?A, ?one] @ polling_rounds 20) = Some s'"
    unfolding run_append s using s'(1) by simp
  have at_zero: "map_option timeRemaining (run (mount ''s'') ([?A, ?one] @ polling_rounds 20))
        = Some (Some (Finite 0))"
      "map_option timer (run (mount ''s'') ([?A, ?one] @ polling_rounds 20)) = Some None"
      "map_option mounted (run (mount ''s'') ([?A, ?one] @ polling_rounds 20)) = Some True"
    unfolding end_run using s'(2,3,4) by (simp_all add: run_ok_def)
  have big1: "map_option timeRemaining (run (mount ''s'') [?A, ?big])
        = Some (Some (Finite 9007199254741020))"
    by code_simp
  have big2: "map_option timeRemaining (run (mount ''s'') [?A, ?big, TimeoutFire])
        = Some (Some (Finite 9007199254741020))"
    by code_simp
  have big3: "map_option timer (run (mount ''s'') [?A, ?big, TimeoutFire]) = Some None"
    by code_simp
  have tiny1: "map_option timeRemaining (run (mount ''s'') [?A, ?tiny])
        = Some (Some (Finite (60 / 2 ^ 60)))"
    by code_simp
  have tiny2: "map_option timeRemaining (run (mount ''s'') [?A, ?tiny, TimeoutFire])
        = Some (Some (Finite (- 1)))"
    by code_simp
  have reseed1: "map_option timeRemaining
        (run (mount ''s'') [?A, ?one, TimeoutFire, TimeoutFire]) = Some (Some (Finite 58))"
    by code_simp
  have reseed2: "map_option timeRemaining
        (run (mount ''s'')
           [?A, ?one, TimeoutFire, TimeoutFire, IntervalFire,
            StatusResponse 1 (example_status ''ready''),
            QuizResponse 1 (Resolved (example_quiz (Some 1) [example_question ''q1'']))])
        = Some (Some (Finite 60))"
    by code_simp
  from zero at_zero big1 big2 big3 tiny1 tiny2 reseed1 reseed2 show ?thesis
    by (intro conjI)
qed

text \<open>
  Every later fetch of the quiz sets the countdown back to its seed: after three
  rounds of three seconds, each followed by a poll that reports \<open>ready\<close> and by the
  quiz it fetches, the countdown of a one-minute quiz is at 60 again and nothing
  has been submitted.
\<close>

lemma countdown_reseeded_by_poll:
  "map_option timeRemaining
     (run (mount ''s'')
        [StatusResponse 0 (example_status ''ready''),
         QuizResponse 0 (Resolved (example_quiz (Some 1) [example_question ''q1''])),
         TimeoutFire, TimeoutFire, TimeoutFire, IntervalFire,
         StatusResponse 1 (example_status ''ready''),
         QuizResponse 1 (Resolved (example_quiz (Some 1) [example_question ''q1''])),
         TimeoutFire, TimeoutFire, TimeoutFire, IntervalFire,
         StatusResponse 2 (example_status ''ready''),
         QuizResponse 2 (Resolved (example_quiz (Some 1) [example_question ''q1''])),
         TimeoutFire, TimeoutFire, TimeoutFire, IntervalFire,
         StatusResponse 3 (example_status ''ready''),
         QuizResponse 3 (Resolved (example_quiz (Some 1) [example_question ''q1'']))])
     = Some (Some (Finite 60))
   \<and> map_option submitPending
       (run (mount ''s'')
        [StatusResponse 0 (example_status ''ready''),
         QuizResponse 0 (Resolved (example_quiz (Some 1) [example_question ''q1''])),
         TimeoutFire, TimeoutFire, TimeoutFire, IntervalFire,
         StatusResponse 1 (example_status ''ready''),
         QuizResponse 1 (Resolved (example_quiz (Some 1) [example_question ''q1''])),
         TimeoutFire, TimeoutFire, TimeoutFire, IntervalFire,
         StatusResponse 2 (example_status ''ready''),
         QuizResponse 2 (Resolved (example_quiz (Some 1) [example_question ''q1''])),
         TimeoutFire, TimeoutFire, TimeoutFire, IntervalFire,
         StatusResponse 3 (example_status ''ready''),
         QuizResponse 3 (Resolved (example_quiz (Some 1) [example_question ''q1'']))])
     = Some []"
  by code_simp

section \<open>Submission at zero\<close>

text \<open>
  Claim C3 at its failing input. The quiz has one question and one minute. The
  user answers and clicks Submit; the request is in flight and \<open>isSubmitting\<close> is
  set. The countdown goes on (the status polls fired meanwhile stay unanswered),
  and at zero \<open>handleSubmitQuiz\<close> runs again: a second \<open>submitAnswers\<close> call is made
  while the first is still in flight.
\<close>

theorem second_submission_at_zero:
  "map_option isSubmitting
     (run (mount ''s'')
        [StatusResponse 0 (example_status ''ready''),
         QuizResponse 0 (Resolved (example_quiz (Some 1) [example_question ''q1''])),
         ClickAnswer ''True'', ClickSubmit])
     = Some True
   \<and> map_option submitPending
       (run (mount ''s'')
          [StatusResponse 0 (example_status ''ready''),
           QuizResponse 0 (Resolved (example_quiz (Some 1) [example_question ''q1''])),
           ClickAnswer ''True'', ClickSubmit])
     = Some [0]
   \<and> map_option submitPending
       (run (mount ''s'')
          ([StatusResponse 0 (example_status ''ready''),
            QuizResponse 0 (Resolved (example_quiz (Some 1) [example_question ''q1''])),
            ClickAnswer ''True'', ClickSubmit] @ polling_rounds 20))
     = Some [0, 1]"
proof -
  let ?click = "[StatusResponse 0 (example_status ''ready''),
                 QuizResponse 0 (Resolved (example_quiz (Some 1) [example_question ''q1''])),
                 ClickAnswer ''True'', ClickSubmit]"
  have "map_option (\<lambda>s. (mounted s, timeRemaining s, isSubmitting s, submitPending s,
                          length (submitCalls s)))
          (run (mount ''s'') ?click)
        = Some (True, Some (Finite 60), True, [0], 1)"
    by code_simp
  then obtain s where s: "run (mount ''s'') ?click = Some s"
    and f: "mounted s" "timeRemaining s = Some (Finite 60)" "isSubmitting s" "submitPending s = [0]"
      "length (submitCalls s) = 1"
    by auto
  have ok: "run_ok s"
    using run_timers_ok [OF s] run_renders [OF s] f(1) by (simp add: run_ok_def)
  from countdown_with_polls [OF ok, of 60 "polling_rounds 20"] f(2) polling_rounds_events [of 20]
  obtain s' where s': "run s (polling_rounds 20) = Some s'"
    "submitPending s' = submitPending s @ [length (submitCalls s)]"
    by auto
  have "run (mount ''s'') (?click @ polling_rounds 20) = Some s'"
    unfolding run_append s using s'(1) by simp
  then have "map_option submitPending (run (mount ''s'') (?click @ polling_rounds 20)) = Some [0, 1]"
    using s'(2) f by simp
  moreover have "map_option isSubmitting (run (mount ''s'') ?click) = Some True"
    unfolding s using f by simp
  moreover have "map_option submitPending (run (mount ''s'') ?click) = Some [0]"
    unfolding s using f by simp
  ultimately show ?thesis by blast
qed

section \<open>Navigation between questions\<close>

lemma handleNextQuestion_index:
  "currentQuestionIndex (handleNextQuestion qs s) =
     (if currentQuestionIndex s < int (length qs) - 1
      then currentQuestionIndex s + 1 else currentQuestionIndex s)"
  by (simp add: handleNextQuestion_def setCurrentQuestionIndex_def)

lemma handlePreviousQuestion_index:
  "currentQuestionIndex (handlePreviousQuestion s) =
     (if currentQuestionIndex s > 0
      then currentQuestionIndex s - 1 else currentQuestionIndex s)"
  by (simp add: handlePreviousQuestion_def setCurrentQuestionIndex_def)

lemma navigate_questions_range:
  "qs \<noteq> [] \<Longrightarrow> 0 \<le> currentQuestionIndex s \<Longrightarrow> currentQuestionIndex s < int (length qs) \<Longrightarrow>
   0 \<le> currentQuestionIndex (navigate_questions qs s ns) \<and>
   currentQuestionIndex (navigate_questions qs s ns) < int (length qs)"
proof (induction ns arbitrary: s)
  case Nil
  then show ?case by simp
next
  case (Cons n ns)
  show ?case
  proof (cases n)
    case Next
    have "0 \<le> currentQuestionIndex (handleNextQuestion qs s)"
      and "currentQuestionIndex (handleNextQuestion qs s) < int (length qs)"
      using Cons.prems by (simp_all add: handleNextQuestion_index)
    with Cons.IH [of "handleNextQuestion qs s"] Cons.prems(1) Next show ?thesis by simp
  next
    case Previous
    have "0 \<le> currentQuestionIndex (handlePreviousQuestion s)"
      and "currentQuestionIndex (handlePreviousQuestion s) < int (length qs)"
      using Cons.prems by (simp_all add: handlePreviousQuestion_index)
    with Cons.IH [of "handlePreviousQuestion s"] Cons.prems(1) Previous show ?thesis by simp
  qed
qed

text \<open>
  Claim C10. For a non-empty question list and an index within
  \<open>[0, questions.length - 1]\<close>, the index is still within that range after any
  sequence of clicks on Next and Previous; \<open>handleNextQuestion\<close> at the last index
  and \<open>handlePreviousQuestion\<close> at index 0 change nothing, and otherwise they add
  and subtract exactly one.
\<close>

theorem question_index_stays_in_range:
  "qs \<noteq> [] \<Longrightarrow> 0 \<le> currentQuestionIndex s \<Longrightarrow> currentQuestionIndex s < int (length qs) \<Longrightarrow>
   (0 \<le> currentQuestionIndex (navigate_questions qs s ns)
      \<and> currentQuestionIndex (navigate_questions qs s ns) \<le> int (length qs) - 1)
   \<and> (currentQuestionIndex s = int (length qs) - 1 \<longrightarrow> handleNextQuestion qs s = s)
   \<and> (currentQuestionIndex s \<noteq> int (length qs) - 1 \<longrightarrow>
        currentQuestionIndex (handleNextQuestion qs s) = currentQuestionIndex s + 1)
   \<and> (currentQuestionIndex s = 0 \<longrightarrow> handlePreviousQuestion s = s)
   \<and> (currentQuestionIndex s \<noteq> 0 \<longrightarrow>
        currentQuestionIndex (handlePreviousQuestion s) = currentQuestionIndex s - 1)"
  using navigate_questions_range [of qs s ns]
  by (simp add: handleNextQuestion_def handlePreviousQuestion_def setCurrentQuestionIndex_def)

theorem question_index_stays_in_range_witness:
  "currentQuestionIndex
     (navigate_questions [example_question ''q1'', example_question ''q2'']
        (initial ''s'') [Next, Next, Previous, Previous]) \<le> 1
   \<and> currentQuestionIndex
        (handleNextQuestion [example_question ''q1'', example_question ''q2''] (initial ''s'')) = 1
   \<and> handlePreviousQuestion (initial ''s'') = initial ''s''"
  using question_index_stays_in_range
    [of "[example_question ''q1'', example_question ''q2'']" "initial ''s''"
        "[Next, Next, Previous, Previous]"]
  by (simp add: initial_def)

section \<open>Recording an answer\<close>

text \<open>
  Claim C9. \<open>handleAnswerChange(questionId, answer)\<close> sets the entry of
  \<open>questionId\<close> in the answers to \<open>answer\<close> and leaves the entry of every other
  question id as it was.
\<close>

theorem handleAnswerChange_frame:
  "answers (handleAnswerChange questionId answer s) questionId = Some answer
   \<and> (\<forall>q. q \<noteq> questionId \<longrightarrow> answers (handleAnswerChange questionId answer s) q = answers s q)"
  by (simp add: handleAnswerChange_def setAnswers_def answer_updater_def)

theorem handleAnswerChange_frame_witness:
  "answers (handleAnswerChange ''q2'' ''True'' ((initial ''s'')\<lparr>answers := [''q1'' \<mapsto> ''B'']\<rparr>)) ''q2''
     = Some ''True''
   \<and> answers (handleAnswerChange ''q2'' ''True'' ((initial ''s'')\<lparr>answers := [''q1'' \<mapsto> ''B'']\<rparr>)) ''q1''
     = Some ''B''"
  using handleAnswerChange_frame
    [of "''q2''" "''True''" "(initial ''s'')\<lparr>answers := [''q1'' \<mapsto> ''B'']\<rparr>"]
  by simp

section \<open>Percentage and grade\<close>

text \<open>
  Claim C6. The percentage is \<open>points_earned / total_points * 100\<close> exactly, and
  the letter follows from it by closed thresholds: A from 90, B from 80, C from 70,
  D from 60, F below; 90 gives A and 89.99 gives B. The five sentences of
  \<open>getScoreMessage\<close> change at the same thresholds as the letter.
\<close>

theorem grade_thresholds:
  "0 < total_points \<Longrightarrow>
   percentage_of points_earned total_points = points_earned / total_points * 100
   \<and> percentage_of points_earned total_points * total_points = points_earned * 100
   \<and> (grade_of p = ''A'' \<longleftrightarrow> 90 \<le> p)
   \<and> (grade_of p = ''B'' \<longleftrightarrow> 80 \<le> p \<and> p < 90)
   \<and> (grade_of p = ''C'' \<longleftrightarrow> 70 \<le> p \<and> p < 80)
   \<and> (grade_of p = ''D'' \<longleftrightarrow> 60 \<le> p \<and> p < 70)
   \<and> (grade_of p = ''F'' \<longleftrightarrow> p < 60)
   \<and> grade_of 90 = ''A'' \<and> grade_of (8999 / 100) = ''B''
   \<and> (getScoreMessage p = Outstanding \<longleftrightarrow> grade_of p = ''A'')
   \<and> (getScoreMessage p = GreatJob \<longleftrightarrow> grade_of p = ''B'')
   \<and> (getScoreMessage p = GoodWork \<longleftrightarrow> grade_of p = ''C'')
   \<and> (getScoreMessage p = NotBad \<longleftrightarrow> grade_of p = ''D'')
   \<and> (getScoreMessage p = KeepStudying \<longleftrightarrow> grade_of p = ''F'')"
  by (simp add: percentage_of_def grade_of_def getScoreMessage_def)

theorem grade_thresholds_witness:
  "percentage_of 20 25 = 80
   \<and> grade_of (percentage_of 20 25) = ''B''
   \<and> getScoreMessage (percentage_of 20 25) = GreatJob"
proof -
  have h: "(0::rat) < 25" by simp
  from grade_thresholds [OF h, of 20 80]
  have "percentage_of 20 25 = 80" and "grade_of 80 = ''B''" and "getScoreMessage 80 = GreatJob"
    by simp_all
  then show ?thesis by simp
qed

section \<open>History\<close>

lemma history_query_sorted:
  "sorted_wrt (\<lambda>a b. created_at a \<ge> created_at b) (history_query store)"
proof -
  have "sorted (map created_at (sort_key created_at store))"
    by simp
  then have "sorted_wrt (\<lambda>a b. created_at a \<le> created_at b) (sort_key created_at store)"
    by (simp add: sorted_wrt_map)
  then show ?thesis
    by (simp add: history_query_def sorted_wrt_rev)
qed

lemma history_query_all: "mset (history_query store) = mset store"
  by (simp add: history_query_def)

lemma filter_of_single:
  assumes "mset xs = M" and "filter_mset P M = {#x#}"
  shows "filter P xs = [x]"
proof -
  have "mset (filter P xs) = {#x#}"
    using assms by simp
  then show ?thesis by (simp only: mset_single_iff)
qed

lemma sort_key_three:
  assumes "created_at a < created_at b" and "created_at b < created_at c"
    and "mset store = {#a, b, c#}"
  shows "sort_key created_at store = [a, b, c]"
proof (rule properties_for_sort_key)
  show "mset [a, b, c] = mset store" using assms(3) by simp
  show "sorted (map created_at [a, b, c])" using assms(1,2) by simp
  fix k assume "k \<in> set [a, b, c]"
  then consider "k = a" | "k = b" | "k = c" by auto
  then show "filter (\<lambda>x. created_at k = created_at x) [a, b, c]
             = filter (\<lambda>x. created_at k = created_at x) store"
  proof cases
    case 1
    have "filter (\<lambda>x. created_at k = created_at x) store = [a]"
      using assms 1 by (intro filter_of_single [OF assms(3)]) auto
    then show ?thesis using assms 1 by simp
  next
    case 2
    have "filter (\<lambda>x. created_at k = created_at x) store = [b]"
      using assms 2 by (intro filter_of_single [OF assms(3)]) auto
    then show ?thesis using assms 2 by simp
  next
    case 3
    have "filter (\<lambda>x. created_at k = created_at x) store = [c]"
      using assms 3 by (intro filter_of_single [OF assms(3)]) auto
    then show ?thesis using assms 3 by simp
  qed
qed

lemma recent_before_rest:
  assumes "x \<in> set (take n (history_query store))"
    and "y \<in> set (drop n (history_query store))"
  shows "created_at y \<le> created_at x"
proof -
  have "sorted_wrt (\<lambda>a b. created_at a \<ge> created_at b)
          (take n (history_query store) @ drop n (history_query store))"
    using history_query_sorted [of store] by simp
  then show ?thesis
    using assms unfolding sorted_wrt_append by blast
qed

text \<open>
  Claim C8. The history query returns all sessions, most recent first: sessions
  created at \<open>t1 < t2 < t3\<close> come back as \<open>[t3, t2, t1]\<close> whatever their order in the
  store. The Dashboard keeps the first five of that list in the order received and
  History.jsx keeps the list as received, so the Dashboard's sessions are at least as
  recent as every session it leaves out.
\<close>

theorem history_most_recent_first:
  "sorted_wrt (\<lambda>a b. created_at a \<ge> created_at b) (history_query store)
   \<and> mset (history_query store) = mset store
   \<and> (created_at a < created_at b \<and> created_at b < created_at c \<and> mset store = {#a, b, c#}
        \<longrightarrow> history_query store = [c, b, a])
   \<and> loadDashboardData_recentSessions (Resolved (history_query store))
        = take 5 (history_query store)
   \<and> loadHistory (Resolved (history_query store)) sessions0 = history_query store
   \<and> (\<forall>x \<in> set (loadDashboardData_recentSessions (Resolved (history_query store))).
        \<forall>y \<in> set (drop 5 (history_query store)). created_at y \<le> created_at x)"
proof -
  have "created_at a < created_at b \<and> created_at b < created_at c \<and> mset store = {#a, b, c#}
        \<longrightarrow> history_query store = [c, b, a]"
    using sort_key_three [of a b c store] by (simp add: history_query_def)
  moreover have "\<forall>x \<in> set (take 5 (history_query store)).
        \<forall>y \<in> set (drop 5 (history_query store)). created_at y \<le> created_at x"
    using recent_before_rest [of _ 5 store] by blast
  ultimately show ?thesis
    using history_query_sorted [of store] history_query_all [of store]
    by (simp add: loadDashboardData_recentSessions_def loadHistory_def)
qed

theorem history_most_recent_first_witness:
  "history_query [example_session ''b'' 2, example_session ''c'' 3, example_session ''a'' 1]
     = [example_session ''c'' 3, example_session ''b'' 2, example_session ''a'' 1]"
  using history_most_recent_first
    [of "[example_session ''b'' 2, example_session ''c'' 3, example_session ''a'' 1]"
        "example_session ''a'' 1" "example_session ''b'' 2" "example_session ''c'' 3"]
  by (simp add: example_session_def)

end
